theory Spec2Isabelle
  imports Complex_Main "HOL-Library.Log_Nat"
begin

section \<open>Gravity Runner: a shallow embedding of \<open>src/game.js\<close>\<close>

text \<open>
  The game is one JavaScript file. Its numbers are IEEE 754 doubles; they are modelled here
  as rationals (\<^typ>\<open>rat\<close>) and, where the code only ever holds whole numbers (the frame
  counters, the best score), as \<^typ>\<open>int\<close>. For the player the exact arithmetic of the
  rationals is the arithmetic of the code: every value the player's physics computes is a
  multiple of \<open>1/2\<close> of magnitude below \<open>400\<close> (lemma \<open>player_inv_update\<close> below), and doubles
  add such values exactly.

  Where a comparison of the code decides on a rounded value and the rounding can change the
  decision, the model rounds as the code does, with \<open>to_double\<close> (round to nearest, ties to
  even): the far edges that \<open>collidesWith\<close> compares, and the gap and the threshold of
  \<open>generateObstacle\<close>; the constructor of the obstacles rounds too. In \<open>isOffScreen\<close> the
  double sum of a double \<open>x\<close> and the width \<open>40\<close> has the sign of the exact sum. The moves of
  the obstacles (whose speed grows by \<open>0.0005\<close> a tick) and the particles are computed with
  the exact values where the browser rounds; the properties below make no comparison on
  them that is within a rounding of equality.

  \<open>Math.random()\<close> is the environment's: the world carries the sequence of numbers it will
  return (\<open>rand\<close>) and how many have been drawn (\<open>randPos\<close>), so that the order of the draws is
  the order of the calls in the source.

  The drawing functions (\<open>drawBackground\<close>, \<open>drawGround\<close>, the \<open>draw\<close> methods) only paint the
  canvas; they read the simulation state and never write it, and are left out.
\<close>

subsection \<open>Binary64 arithmetic\<close>

text \<open>
  \<open>to_double x\<close> is the double nearest to \<open>x\<close>. The doubles around \<open>x\<close> are the multiples of
  \<open>ulp x = 2 ^ (e - 52)\<close>, where \<open>2 ^ e \<le> |x| < 2 ^ (e + 1)\<close> (\<open>binade\<close>, computed from the bit
  length of the integer part, or of the integer part of the inverse below \<open>1\<close>), and
  \<open>e = -1022\<close> for the subnormal numbers below \<open>2 ^ -1022\<close>. The quotient \<open>x / ulp x\<close> is
  rounded to the nearest integer, a tie to the even one. The range of the doubles has no
  upper end here: a result beyond \<open>2 ^ 1024\<close>, which is \<open>Infinity\<close> in the code, is not
  modelled, and no sum of the game comes near it.
\<close>

definition roundTiesToEven :: "rat \<Rightarrow> int" where
  "roundTiesToEven a =
     (let f = \<lfloor>a\<rfloor>; d = a - of_int f
      in if d < 1 / 2 then f else if 1 / 2 < d then f + 1 else if even f then f else f + 1)"

definition binade :: "rat \<Rightarrow> int" where
  "binade x =
     (if 1 \<le> \<bar>x\<bar> then bitlen \<lfloor>\<bar>x\<bar>\<rfloor> - 1 else - bitlen (\<lceil>1 / \<bar>x\<bar>\<rceil> - 1))"

definition ulp :: "rat \<Rightarrow> rat" where
  "ulp x = 2 powi (max (binade x) (- 1022) - 52)"

definition to_double :: "rat \<Rightarrow> rat" where
  "to_double x = of_int (roundTiesToEven (x / ulp x)) * ulp x"

subsection \<open>\<open>CONFIG\<close>\<close>

definition CONFIG_canvas_width :: rat where "CONFIG_canvas_width = 800"
definition CONFIG_canvas_height :: rat where "CONFIG_canvas_height = 400"
definition CONFIG_player_size :: rat where "CONFIG_player_size = 30"
definition CONFIG_player_x :: rat where "CONFIG_player_x = 150"
definition CONFIG_player_maxSpeed :: rat where "CONFIG_player_maxSpeed = 8"
definition CONFIG_player_gravity :: rat where "CONFIG_player_gravity = 1 / 2"
definition CONFIG_obstacle_width :: rat where "CONFIG_obstacle_width = 40"
definition CONFIG_obstacle_minGap :: rat where "CONFIG_obstacle_minGap = 200"
definition CONFIG_obstacle_maxGap :: rat where "CONFIG_obstacle_maxGap = 350"
definition CONFIG_obstacle_speed :: rat where "CONFIG_obstacle_speed = 5"
definition CONFIG_obstacle_speedIncrease :: rat where "CONFIG_obstacle_speedIncrease = 5 / 10000"
definition CONFIG_game_groundHeight :: rat where "CONFIG_game_groundHeight = 50"
definition CONFIG_game_scoreMultiplier :: rat where "CONFIG_game_scoreMultiplier = 1"

text \<open>
  \<open>resizeCanvas\<close> runs at load and on every resize, and each time assigns
  \<open>canvas.width = CONFIG.canvas.width\<close> and \<open>canvas.height = CONFIG.canvas.height\<close>; only the
  CSS size varies.
\<close>

definition canvas_width :: rat where "canvas_width = CONFIG_canvas_width"
definition canvas_height :: rat where "canvas_height = CONFIG_canvas_height"

subsection \<open>Data\<close>

text \<open>\<open>Player.rotation\<close> is either \<open>0\<close> or \<open>Math.PI\<close>.\<close>

datatype rotation = Rot_0 | Rot_PI

record Player =
  p_width :: rat
  p_height :: rat
  p_x :: rat
  p_y :: rat
  velocityY :: rat
  gravity :: rat
  isOnGround :: bool
  rotation :: rotation

record Obstacle =
  o_width :: rat
  o_height :: rat
  o_x :: rat
  isTop :: bool
  o_y :: rat
  o_speed :: rat

record Particle =
  pt_x :: rat
  pt_y :: rat
  vx :: rat
  vy :: rat
  life :: rat
  decay :: rat
  pt_size :: rat

record game_state =
  isRunning :: bool
  isPaused :: bool
  score :: rat
  highScore :: int
  frame :: int

text \<open>
  The mutable globals of the script, and the parts of the environment it writes:
  \<open>localStorage\<close> (a value is the number passed to \<open>setItem\<close>, which the browser stores as
  its decimal string), the class \<open>hidden\<close>/\<open>show\<close> of four elements, the numbers assigned to
  the \<open>textContent\<close> of three, and the callbacks handed to \<open>requestAnimationFrame\<close> that
  have not run yet (all of them are \<open>gameLoop\<close>, so a count).
\<close>

record world =
  gameState :: game_state
  player :: Player
  obstacles :: "Obstacle list"
  particles :: "Particle list"
  lastObstacleFrame :: int
  localStorage :: "string \<rightharpoonup> int"
  startScreen_hidden :: bool
  gameOverScreen_hidden :: bool
  gameHint_hidden :: bool
  newHighScore_show :: bool
  currentScore_text :: int
  highScore_text :: int
  finalScore_text :: int
  animationFrames :: nat
  rand :: "nat \<Rightarrow> rat"
  randPos :: nat

definition Math_random :: "world \<Rightarrow> rat \<times> world" where
  "Math_random w = (rand w (randPos w), w\<lparr>randPos := randPos w + 1\<rparr>)"

subsection \<open>Particles\<close>

definition Particle_new :: "rat \<Rightarrow> rat \<Rightarrow> world \<Rightarrow> Particle \<times> world" where
  "Particle_new x y w =
     (let (r1, w1) = Math_random w;
          (r2, w2) = Math_random w1;
          (r3, w3) = Math_random w2
      in (\<lparr>pt_x = x, pt_y = y, vx = (r1 - 1 / 2) * 6, vy = (r2 - 1 / 2) * 6,
           life = 1, decay = 2 / 100, pt_size = r3 * 4 + 2\<rparr>, w3))"

definition Particle_update :: "Particle \<Rightarrow> Particle" where
  "Particle_update q =
     q\<lparr>pt_x := pt_x q + vx q, pt_y := pt_y q + vy q, life := life q - decay q\<rparr>"

definition isDead :: "Particle \<Rightarrow> bool" where
  "isDead q \<longleftrightarrow> life q \<le> 0"

text \<open>\<open>createParticles\<close>: the loop body runs \<open>n\<close> more times.\<close>

primrec createParticles_loop :: "nat \<Rightarrow> rat \<Rightarrow> rat \<Rightarrow> world \<Rightarrow> world" where
  "createParticles_loop 0 x y w = w"
| "createParticles_loop (Suc n) x y w =
     (let (q, w1) = Particle_new x y w
      in createParticles_loop n x y (w1\<lparr>particles := particles w1 @ [q]\<rparr>))"

definition createParticles :: "rat \<Rightarrow> rat \<Rightarrow> world \<Rightarrow> world" where
  "createParticles x y w = createParticles_loop 15 x y w"

subsection \<open>The player\<close>

definition Player_new :: Player where
  "Player_new =
     \<lparr>p_width = CONFIG_player_size, p_height = CONFIG_player_size, p_x = CONFIG_player_x,
      p_y = CONFIG_game_groundHeight, velocityY = 0, gravity = CONFIG_player_gravity,
      isOnGround = True, rotation = Rot_0\<rparr>"

text \<open>
  \<open>flipGravity\<close> writes two fields of the player, then pushes the particle burst and hides
  the hint. \<open>Player_flip\<close> is its first two statements.
\<close>

definition Player_flip :: "Player \<Rightarrow> Player" where
  "Player_flip p = p\<lparr>gravity := gravity p * (- 1), velocityY := 0\<rparr>"

definition flipGravity :: "world \<Rightarrow> world" where
  "flipGravity w =
     (let w1 = w\<lparr>player := Player_flip (player w)\<rparr>;
          p = player w1;
          w2 = createParticles (p_x p + p_width p / 2) (p_y p + p_height p / 2) w1
      in if \<not> gameHint_hidden w2 then w2\<lparr>gameHint_hidden := True\<rparr> else w2)"

definition Player_update :: "Player \<Rightarrow> Player" where
  "Player_update p =
     (let p1 = p\<lparr>velocityY := velocityY p + gravity p\<rparr>;
          p2 = (if \<bar>velocityY p1\<bar> > CONFIG_player_maxSpeed
                then p1\<lparr>velocityY := sgn (velocityY p1) * CONFIG_player_maxSpeed\<rparr> else p1);
          p3 = p2\<lparr>p_y := p_y p2 + velocityY p2\<rparr>;
          p4 = (if gravity p3 > 0
                   \<and> p_y p3 \<ge> canvas_height - CONFIG_game_groundHeight - p_height p3
                then p3\<lparr>p_y := canvas_height - CONFIG_game_groundHeight - p_height p3,
                        velocityY := 0, isOnGround := True\<rparr>
                else p3);
          p5 = (if gravity p4 < 0 \<and> p_y p4 \<le> CONFIG_game_groundHeight
                then p4\<lparr>p_y := CONFIG_game_groundHeight, velocityY := 0, isOnGround := True\<rparr>
                else p4)
      in p5\<lparr>rotation := (if gravity p5 > 0 then Rot_0 else Rot_PI)\<rparr>)"

definition Player_reset :: "Player \<Rightarrow> Player" where
  "Player_reset p =
     p\<lparr>p_y := CONFIG_game_groundHeight, velocityY := 0, gravity := CONFIG_player_gravity,
       rotation := Rot_0\<rparr>"

subsection \<open>Obstacles\<close>

definition Obstacle_new :: "rat \<Rightarrow> bool \<Rightarrow> world \<Rightarrow> Obstacle \<times> world" where
  "Obstacle_new x atTop w =
     (let (r, w1) = Math_random w;
          h = to_double (to_double (r * 100) + 100)
      in (\<lparr>o_width = CONFIG_obstacle_width, o_height = h, o_x = x, isTop = atTop,
           o_y = (if atTop then CONFIG_game_groundHeight
                  else to_double (to_double (canvas_height - CONFIG_game_groundHeight) - h)),
           o_speed = CONFIG_obstacle_speed\<rparr>, w1))"

definition Obstacle_update :: "Obstacle \<Rightarrow> Obstacle" where
  "Obstacle_update ob =
     (let ob1 = ob\<lparr>o_x := o_x ob - o_speed ob\<rparr>
      in ob1\<lparr>o_speed := o_speed ob1 + CONFIG_obstacle_speedIncrease\<rparr>)"

definition isOffScreen :: "Obstacle \<Rightarrow> bool" where
  "isOffScreen ob \<longleftrightarrow> o_x ob + o_width ob < 0"

definition collidesWith :: "Obstacle \<Rightarrow> Player \<Rightarrow> bool" where
  "collidesWith ob p \<longleftrightarrow>
     p_x p < to_double (o_x ob + o_width ob) \<and>
     to_double (p_x p + p_width p) > o_x ob \<and>
     p_y p < to_double (o_y ob + o_height ob) \<and>
     to_double (p_y p + p_height p) > o_y ob"

text \<open>\<open>xs.splice(i, 1)\<close> removes the element at index \<open>i\<close>.\<close>

definition splice1 :: "nat \<Rightarrow> 'a list \<Rightarrow> 'a list" where
  "splice1 i xs = take i xs @ drop (i + 1) xs"

subsection \<open>Obstacle generation\<close>

text \<open>The initialiser of \<open>const gap\<close>, as a function of the draw.\<close>

definition gap_of_draw :: "rat \<Rightarrow> rat" where
  "gap_of_draw r =
     to_double (to_double (r * to_double (CONFIG_obstacle_maxGap - CONFIG_obstacle_minGap))
                + CONFIG_obstacle_minGap)"

definition generateObstacle :: "world \<Rightarrow> world" where
  "generateObstacle w =
     (let (r, w1) = Math_random w;
          gap = gap_of_draw r
      in if of_int (frame (gameState w1) - lastObstacleFrame w1)
              > to_double (gap / CONFIG_obstacle_speed)
         then (let (r2, w2) = Math_random w1;
                   atTop = (r2 > 1 / 2);
                   (ob, w3) = Obstacle_new canvas_width atTop w2
               in w3\<lparr>obstacles := obstacles w3 @ [ob],
                     lastObstacleFrame := frame (gameState w3)\<rparr>)
         else w1)"

subsection \<open>Game over and collision detection\<close>

definition storageKey :: string where
  "storageKey = ''gravityRunnerHighScore''"

definition gameOver :: "world \<Rightarrow> world" where
  "gameOver w =
     (let w1 = w\<lparr>gameState := (gameState w)\<lparr>isRunning := False\<rparr>\<rparr>;
          finalScore = \<lfloor>score (gameState w1)\<rfloor>;
          w2 = w1\<lparr>finalScore_text := finalScore\<rparr>;
          w3 = (if finalScore > highScore (gameState w2)
                then w2\<lparr>gameState := (gameState w2)\<lparr>highScore := finalScore\<rparr>,
                        localStorage := (localStorage w2)(storageKey \<mapsto> finalScore),
                        highScore_text := finalScore,
                        newHighScore_show := True\<rparr>
                else w2\<lparr>newHighScore_show := False\<rparr>)
      in w3\<lparr>gameOverScreen_hidden := False\<rparr>)"

text \<open>
  \<open>checkCollisions\<close>: the \<open>for ... of\<close> loop over the obstacles still to visit; the first
  one that collides ends the run and the loop.
\<close>

fun checkCollisions_loop :: "Obstacle list \<Rightarrow> world \<Rightarrow> world" where
  "checkCollisions_loop [] w = w"
| "checkCollisions_loop (ob # rest) w =
     (if collidesWith ob (player w) then gameOver w else checkCollisions_loop rest w)"

definition checkCollisions :: "world \<Rightarrow> world" where
  "checkCollisions w = checkCollisions_loop (obstacles w) w"

subsection \<open>Update functions\<close>

definition updateScore :: "world \<Rightarrow> world" where
  "updateScore w =
     (let w1 = w\<lparr>gameState :=
                  (gameState w)\<lparr>score := score (gameState w) + CONFIG_game_scoreMultiplier\<rparr>\<rparr>
      in w1\<lparr>currentScore_text := \<lfloor>score (gameState w1)\<rfloor>\<rparr>)"

text \<open>
  \<open>updateObstacles\<close>: \<open>for (let i = obstacles.length - 1; i >= 0; i--)\<close>. The first argument
  of the loop is \<open>i + 1\<close>, so that \<open>0\<close> is the exit. The index stays inside the array: a
  pass removes only the element at \<open>i\<close>, and the next pass reads \<open>i - 1\<close>
  (lemma \<open>loop_index_in_range\<close>).
\<close>

primrec updateObstacles_loop :: "nat \<Rightarrow> Obstacle list \<Rightarrow> Obstacle list" where
  "updateObstacles_loop 0 obs = obs"
| "updateObstacles_loop (Suc i) obs =
     (let obs1 = obs[i := Obstacle_update (obs ! i)];
          obs2 = (if isOffScreen (obs1 ! i) then splice1 i obs1 else obs1)
      in updateObstacles_loop i obs2)"

definition updateObstacles :: "world \<Rightarrow> world" where
  "updateObstacles w = w\<lparr>obstacles := updateObstacles_loop (length (obstacles w)) (obstacles w)\<rparr>"

primrec updateParticles_loop :: "nat \<Rightarrow> Particle list \<Rightarrow> Particle list" where
  "updateParticles_loop 0 qs = qs"
| "updateParticles_loop (Suc i) qs =
     (let qs1 = qs[i := Particle_update (qs ! i)];
          qs2 = (if isDead (qs1 ! i) then splice1 i qs1 else qs1)
      in updateParticles_loop i qs2)"

definition updateParticles :: "world \<Rightarrow> world" where
  "updateParticles w = w\<lparr>particles := updateParticles_loop (length (particles w)) (particles w)\<rparr>"

subsection \<open>The game loop and the controls\<close>

definition requestAnimationFrame :: "world \<Rightarrow> world" where
  "requestAnimationFrame w = w\<lparr>animationFrames := animationFrames w + 1\<rparr>"

definition gameLoop :: "world \<Rightarrow> world" where
  "gameLoop w =
     (if \<not> isRunning (gameState w) then w
      else
        let w1 = w\<lparr>player := Player_update (player w)\<rparr>;
            w2 = updateObstacles w1;
            w3 = updateParticles w2;
            w4 = generateObstacle w3;
            w5 = updateScore w4;
            w6 = checkCollisions w5;
            w7 = w6\<lparr>gameState := (gameState w6)\<lparr>frame := frame (gameState w6) + 1\<rparr>\<rparr>
        in requestAnimationFrame w7)"

definition startGame :: "world \<Rightarrow> world" where
  "startGame w =
     (let w1 = w\<lparr>startScreen_hidden := True, gameHint_hidden := False\<rparr>;
          w2 = w1\<lparr>gameState := (gameState w1)\<lparr>isRunning := True, score := 0, frame := 0\<rparr>,
                  obstacles := [], particles := [], lastObstacleFrame := 0\<rparr>;
          w3 = w2\<lparr>player := Player_reset (player w2)\<rparr>
      in gameLoop w3)"

definition restartGame :: "world \<Rightarrow> world" where
  "restartGame w = startGame (w\<lparr>gameOverScreen_hidden := True\<rparr>)"

text \<open>
  What the browser can do to the script: click a button, press Space or click the canvas
  (both guarded by \<open>gameState.isRunning\<close>), or run one pending animation-frame callback.
\<close>

datatype event = StartClick | RestartClick | FlipInput | AnimationFrame

fun handle :: "event \<Rightarrow> world \<Rightarrow> world" where
  "handle StartClick w = startGame w"
| "handle RestartClick w = restartGame w"
| "handle FlipInput w = (if isRunning (gameState w) then flipGravity w else w)"
| "handle AnimationFrame w =
     (if animationFrames w = 0 then w
      else gameLoop (w\<lparr>animationFrames := animationFrames w - 1\<rparr>))"

subsection \<open>The script at load\<close>

text \<open>
  The top level of the script: \<open>gameState\<close> with the best score read from the storage
  (\<open>parseInt(...) || 0\<close>: \<open>0\<close> when the key is absent), \<open>new Player()\<close>, two empty arrays.
  The classes of the page's elements come from the page, which shows the start screen.
\<close>

definition initial_world :: "(string \<rightharpoonup> int) \<Rightarrow> (nat \<Rightarrow> rat) \<Rightarrow> world" where
  "initial_world store rnd =
     \<lparr>gameState = \<lparr>isRunning = False, isPaused = False, score = 0,
                   highScore = (case store storageKey of None \<Rightarrow> 0 | Some n \<Rightarrow> n),
                   frame = 0\<rparr>,
      player = Player_new, obstacles = [], particles = [], lastObstacleFrame = 0,
      localStorage = store,
      startScreen_hidden = False, gameOverScreen_hidden = True, gameHint_hidden = True,
      newHighScore_show = False,
      currentScore_text = 0,
      highScore_text = (case store storageKey of None \<Rightarrow> 0 | Some n \<Rightarrow> n),
      finalScore_text = 0,
      animationFrames = 0, rand = rnd, randPos = 0\<rparr>"

subsection \<open>Notions used to state the properties\<close>

text \<open>A sequence of calls of the player's two mutating methods, on the world's player.\<close>

datatype player_call = Call_flipGravity | Call_update

fun call :: "player_call \<Rightarrow> world \<Rightarrow> world" where
  "call Call_flipGravity w = flipGravity w"
| "call Call_update w = w\<lparr>player := Player_update (player w)\<rparr>"

definition calls :: "player_call list \<Rightarrow> world \<Rightarrow> world" where
  "calls cs w = fold call cs w"

text \<open>
  What holds of the player between calls: it is between the planes, gravity is
  \<open>\<plusminus>CONFIG.player.gravity\<close>, the velocity never points against gravity and is within the
  speed limit, and position and velocity are multiples of one half.
\<close>

definition player_inv :: "Player \<Rightarrow> bool" where
  "player_inv p \<longleftrightarrow>
     p_height p = CONFIG_player_size \<and>
     CONFIG_game_groundHeight \<le> p_y p \<and>
     p_y p \<le> canvas_height - CONFIG_game_groundHeight - p_height p \<and>
     \<bar>gravity p\<bar> = CONFIG_player_gravity \<and>
     0 \<le> velocityY p * gravity p \<and>
     \<bar>velocityY p\<bar> \<le> CONFIG_player_maxSpeed \<and>
     2 * p_y p \<in> \<int> \<and> 2 * velocityY p \<in> \<int>"

text \<open>The player \<open>p\<close> under downward gravity at height \<open>y\<close> with velocity \<open>v\<close>.\<close>

definition falling :: "Player \<Rightarrow> rat \<Rightarrow> rat \<Rightarrow> bool \<Rightarrow> Player" where
  "falling p y v b =
     p\<lparr>p_y := y, velocityY := v, gravity := 1 / 2, isOnGround := b, rotation := Rot_0\<rparr>"

text \<open>
  Whether a call of \<open>generateObstacle\<close> pushes an obstacle, and whether a whole tick does:
  inside \<open>gameLoop\<close> the generator runs after the player, the obstacles and the particles
  have been updated.
\<close>

definition spawns :: "world \<Rightarrow> bool" where
  "spawns w \<longleftrightarrow> obstacles (generateObstacle w) \<noteq> obstacles w"

definition tick_spawns :: "world \<Rightarrow> bool" where
  "tick_spawns w \<longleftrightarrow>
     isRunning (gameState w)
     \<and> spawns (updateParticles (updateObstacles (w\<lparr>player := Player_update (player w)\<rparr>)))"

text \<open>The events of a trace that run \<open>gameLoop\<close>: all but the flip input.\<close>

definition ticks_of :: "event list \<Rightarrow> nat" where
  "ticks_of es = length (filter (\<lambda>e. e \<noteq> FlipInput) es)"

text \<open>
  A running world in frame \<open>165\<close> of a run in which every draw was \<open>0\<close>: the player rests on
  the floor, the oldest obstacle stands on the floor a step of its speed away from the
  player's right edge, one animation-frame callback is pending.
\<close>

definition crash_world :: world where
  "crash_world =
     \<lparr>gameState = \<lparr>isRunning = True, isPaused = False, score = 165, highScore = 0,
                   frame = 165\<rparr>,
      player = \<lparr>p_width = 30, p_height = 30, p_x = 150, p_y = 320, velocityY = 0,
                gravity = 1 / 2, isOnGround = True, rotation = Rot_0\<rparr>,
      obstacles =
        [\<lparr>o_width = 40, o_height = 100, o_x = 362497 / 2000, isTop = False, o_y = 250,
          o_speed = 10123 / 2000\<rparr>,
         \<lparr>o_width = 40, o_height = 100, o_x = 776679 / 2000, isTop = False, o_y = 250,
          o_speed = 5041 / 1000\<rparr>,
         \<lparr>o_width = 40, o_height = 100, o_x = 59459 / 100, isTop = False, o_y = 250,
          o_speed = 10041 / 2000\<rparr>,
         \<lparr>o_width = 40, o_height = 100, o_x = 800, isTop = False, o_y = 250,
          o_speed = 5\<rparr>],
      particles = [], lastObstacleFrame = 164, localStorage = Map.empty,
      startScreen_hidden = True, gameOverScreen_hidden = True, gameHint_hidden = False,
      newHighScore_show = False, currentScore_text = 165, highScore_text = 0,
      finalScore_text = 0, animationFrames = 1, rand = (\<lambda>_. 0), randPos = 173\<rparr>"

text \<open>Obstacles and a world for the examples.\<close>

definition box :: "rat \<Rightarrow> rat \<Rightarrow> rat \<Rightarrow> rat \<Rightarrow> Obstacle" where
  "box x y wd ht =
     \<lparr>o_width = wd, o_height = ht, o_x = x, isTop = True, o_y = y,
      o_speed = CONFIG_obstacle_speed\<rparr>"

definition running_world :: "int \<Rightarrow> rat \<Rightarrow> int \<Rightarrow> (nat \<Rightarrow> rat) \<Rightarrow> world" where
  "running_world f sc best rnd =
     (initial_world Map.empty rnd)
       \<lparr>gameState := \<lparr>isRunning = True, isPaused = False, score = sc, highScore = best,
                      frame = f\<rparr>\<rparr>"


definition thin_obstacle :: Obstacle where
  "thin_obstacle =
     \<lparr>o_width = 40, o_height = 201 / 2 + 1 / 2 ^ 46, o_x = 150, isTop = True, o_y = 50,
      o_speed = 5\<rparr>"



section \<open>Properties\<close>

lemmas CONFIG_defs =
  CONFIG_canvas_width_def CONFIG_canvas_height_def CONFIG_player_size_def CONFIG_player_x_def
  CONFIG_player_maxSpeed_def CONFIG_player_gravity_def CONFIG_obstacle_width_def
  CONFIG_obstacle_minGap_def CONFIG_obstacle_maxGap_def CONFIG_obstacle_speed_def
  CONFIG_obstacle_speedIncrease_def CONFIG_game_groundHeight_def
  CONFIG_game_scoreMultiplier_def canvas_width_def canvas_height_def

subsection \<open>Rounding to a double\<close>

lemma roundTiesToEven_of_int: "roundTiesToEven (of_int n) = n"
  by (simp add: roundTiesToEven_def)

lemma roundTiesToEven_bounds:
  "of_int (roundTiesToEven a) \<le> a + 1 / 2" "a - 1 / 2 \<le> of_int (roundTiesToEven a)"
  unfolding roundTiesToEven_def Let_def by (auto, linarith+)

lemma roundTiesToEven_mono:
  assumes "a \<le> b"
  shows "roundTiesToEven a \<le> roundTiesToEven b"
proof (cases "\<lfloor>a\<rfloor> = \<lfloor>b\<rfloor>")
  case True
  have "a - of_int \<lfloor>b\<rfloor> \<le> b - of_int \<lfloor>b\<rfloor>"
    using assms by simp
  then show ?thesis
    unfolding roundTiesToEven_def Let_def True by auto
next
  case False
  then have "\<lfloor>a\<rfloor> + 1 \<le> \<lfloor>b\<rfloor>"
    using floor_mono [OF assms] by linarith
  moreover have "roundTiesToEven a \<le> \<lfloor>a\<rfloor> + 1"
    unfolding roundTiesToEven_def Let_def by auto
  moreover have "\<lfloor>b\<rfloor> \<le> roundTiesToEven b"
    unfolding roundTiesToEven_def Let_def by auto
  ultimately show ?thesis by linarith
qed

lemma roundTiesToEven_minus: "roundTiesToEven (- a) = - roundTiesToEven a"
proof (cases "a \<in> \<int>")
  case True
  then obtain n where "a = of_int n" by (auto elim: Ints_cases)
  then show ?thesis
    by (simp add: roundTiesToEven_of_int flip: of_int_minus)
next
  case False
  have ne: "a \<noteq> of_int \<lfloor>a\<rfloor>"
    using False Ints_of_int by metis
  then have f: "\<lfloor>- a\<rfloor> = - \<lfloor>a\<rfloor> - 1"
    by (simp add: floor_minus ceiling_altdef)
  from ne have d: "0 < a - of_int \<lfloor>a\<rfloor>" "a - of_int \<lfloor>a\<rfloor> < 1"
    using of_int_floor_le [of a] floor_less_one [of a] by linarith+
  show ?thesis
    unfolding roundTiesToEven_def Let_def f using d
    by (auto simp add: algebra_simps)
qed


lemma binade_bounds_ge1:
  fixes a :: rat
  assumes "1 \<le> a"
  shows "2 powi (bitlen \<lfloor>a\<rfloor> - 1) \<le> a" "a < 2 powi (bitlen \<lfloor>a\<rfloor> - 1 + 1)"
proof -
  let ?n = "\<lfloor>a\<rfloor>"
  have n: "0 < ?n" using assms by simp
  from bitlen_bounds [OF n]
  have b: "2 ^ nat (bitlen ?n - 1) \<le> ?n" "?n < 2 ^ nat (bitlen ?n)" by simp_all
  have k: "1 \<le> bitlen ?n"
    using n bitlen_nonneg [of ?n] bitlen_eq_zero_iff [of ?n] by linarith
  have "(2::rat) powi (bitlen ?n - 1) = of_int (2 ^ nat (bitlen ?n - 1))"
    using k by (simp add: power_int_def)
  also have "\<dots> \<le> of_int ?n"
    using b(1) by (simp only: of_int_le_iff)
  also have "\<dots> \<le> a" by simp
  finally show "2 powi (bitlen \<lfloor>a\<rfloor> - 1) \<le> a" .
  have "?n + 1 \<le> 2 ^ nat (bitlen ?n)"
    using b(2) by simp
  then have "(of_int (?n + 1) :: rat) \<le> of_int (2 ^ nat (bitlen ?n))"
    by (simp only: of_int_le_iff)
  moreover have "a < of_int (?n + 1)"
    using floor_less_one [of a] by simp linarith
  moreover have "(2::rat) powi (bitlen ?n - 1 + 1) = of_int (2 ^ nat (bitlen ?n))"
    using k by (simp add: power_int_def)
  ultimately show "a < 2 powi (bitlen \<lfloor>a\<rfloor> - 1 + 1)"
    by linarith
qed

lemma binade_bounds_lt1:
  fixes a :: rat
  assumes "0 < a" "a < 1"
  shows "2 powi (- bitlen (\<lceil>1 / a\<rceil> - 1)) \<le> a" "a < 2 powi (- bitlen (\<lceil>1 / a\<rceil> - 1) + 1)"
proof -
  let ?y = "1 / a"
  let ?n = "\<lceil>?y\<rceil> - 1"
  have y: "1 < ?y" using assms by simp
  then have n: "0 < ?n" by (simp add: less_ceiling_iff)
  have ny: "of_int ?n < ?y" "?y \<le> of_int ?n + 1"
    using ceiling_correct [of ?y] by simp_all
  from bitlen_bounds [OF n]
  have b: "2 ^ nat (bitlen ?n - 1) \<le> ?n" "?n < 2 ^ nat (bitlen ?n)" by simp_all
  have k: "1 \<le> bitlen ?n"
    using n bitlen_nonneg [of ?n] bitlen_eq_zero_iff [of ?n] by linarith
  have "\<lceil>?y\<rceil> \<le> 2 ^ nat (bitlen ?n)"
    using b(2) by linarith
  then have "(of_int \<lceil>?y\<rceil> :: rat) \<le> of_int (2 ^ nat (bitlen ?n))"
    by (simp only: of_int_le_iff)
  then have "(of_int \<lceil>?y\<rceil> :: rat) \<le> 2 ^ nat (bitlen ?n)"
    by simp
  then have "?y \<le> 2 ^ nat (bitlen ?n)"
    using le_of_int_ceiling [of ?y] by linarith
  then have "1 \<le> a * 2 ^ nat (bitlen ?n)"
    using assms(1) by (simp add: field_simps)
  then have "1 / 2 ^ nat (bitlen ?n) \<le> a"
    by (simp add: field_simps)
  moreover have "(2::rat) powi (- bitlen ?n) = 1 / 2 ^ nat (bitlen ?n)"
    using k by (simp add: power_int_def field_simps)
  ultimately show "2 powi (- bitlen (\<lceil>1 / a\<rceil> - 1)) \<le> a"
    by simp
  have "(of_int (2 ^ nat (bitlen ?n - 1)) :: rat) \<le> of_int ?n"
    using b(1) by (simp only: of_int_le_iff)
  then have "(2 ^ nat (bitlen ?n - 1) :: rat) \<le> of_int ?n"
    by simp
  then have "2 ^ nat (bitlen ?n - 1) < ?y"
    using ny(1) by linarith
  then have "a * 2 ^ nat (bitlen ?n - 1) < 1"
    using assms(1) by (simp add: field_simps)
  then have "a < 1 / 2 ^ nat (bitlen ?n - 1)"
    by (simp add: field_simps)
  moreover have "(2::rat) powi (- bitlen ?n + 1) = 1 / 2 ^ nat (bitlen ?n - 1)"
    using k by (simp add: power_int_def field_simps nat_diff_distrib)
  ultimately show "a < 2 powi (- bitlen (\<lceil>1 / a\<rceil> - 1) + 1)"
    by simp
qed

lemma binade_bounds:
  assumes "x \<noteq> 0"
  shows "2 powi binade x \<le> \<bar>x\<bar>" "\<bar>x\<bar> < 2 powi (binade x + 1)"
  using assms binade_bounds_ge1 [of "\<bar>x\<bar>"] binade_bounds_lt1 [of "\<bar>x\<bar>"]
  by (auto simp add: binade_def not_le)


lemma pow2_less_imp_less:
  assumes "(2::rat) powi a < 2 powi b"
  shows "a < b"
proof (rule ccontr)
  assume "\<not> a < b"
  then have "(2::rat) powi b \<le> 2 powi a"
    by (intro power_int_increasing) simp_all
  with assms show False by simp
qed

lemma binade_mono:
  assumes "x \<noteq> 0" "\<bar>x\<bar> \<le> \<bar>y\<bar>"
  shows "binade x \<le> binade y"
proof -
  have y: "y \<noteq> 0" using assms by auto
  have "2 powi binade x \<le> \<bar>x\<bar>"
    using assms(1) by (rule binade_bounds)
  also have "\<dots> \<le> \<bar>y\<bar>" by fact
  also have "\<dots> < 2 powi (binade y + 1)"
    using y by (rule binade_bounds)
  finally have "binade x < binade y + 1"
    by (rule pow2_less_imp_less)
  then show ?thesis by simp
qed

lemma binade_eqI:
  assumes "2 powi k \<le> \<bar>x\<bar>" "\<bar>x\<bar> < 2 powi (k + 1)"
  shows "binade x = k"
proof -
  have "(0::rat) < 2 powi k" by simp
  with assms(1) have "0 < \<bar>x\<bar>" by linarith
  then have x: "x \<noteq> 0" by simp
  have "2 powi binade x \<le> \<bar>x\<bar>" using x by (rule binade_bounds)
  with assms(2) have "(2::rat) powi binade x < 2 powi (k + 1)" by simp
  then have 1: "binade x < k + 1" by (rule pow2_less_imp_less)
  have "\<bar>x\<bar> < 2 powi (binade x + 1)" using x by (rule binade_bounds)
  with assms(1) have "(2::rat) powi k < 2 powi (binade x + 1)" by simp
  then have "k < binade x + 1" by (rule pow2_less_imp_less)
  with 1 show ?thesis by simp
qed

lemma binade_minus [simp]: "binade (- x) = binade x"
  by (simp add: binade_def)

lemma ulp_minus [simp]: "ulp (- x) = ulp x"
  by (simp add: ulp_def)

lemma ulp_pos [simp]: "0 < ulp x"
  by (simp add: ulp_def)

lemma ulp_nonneg [simp]: "0 \<le> ulp x"
  by (simp add: ulp_def)

lemma ulp_neq_0 [simp]: "ulp x \<noteq> 0"
  by (simp add: ulp_def)

lemma to_double_minus: "to_double (- x) = - to_double x"
  by (simp add: to_double_def roundTiesToEven_minus)

lemma to_double_0 [simp]: "to_double 0 = 0"
  by (simp add: to_double_def roundTiesToEven_def)

lemma to_double_nonneg:
  assumes "0 \<le> x"
  shows "0 \<le> to_double x"
proof -
  have "roundTiesToEven 0 \<le> roundTiesToEven (x / ulp x)"
    using assms by (intro roundTiesToEven_mono) simp
  then have "0 \<le> roundTiesToEven (x / ulp x)"
    by (simp add: roundTiesToEven_def)
  then show ?thesis
    by (simp add: to_double_def)
qed

text \<open>A positive number and its rounding lie in the same closed binade.\<close>

lemma to_double_le_pow2:
  assumes "0 < x" "x \<le> 2 powi (k + 1)" "max (binade x) (- 1022) \<le> k"
  shows "to_double x \<le> 2 powi (k + 1)"
proof -
  let ?e = "max (binade x) (- 1022)"
  have u: "ulp x = 2 powi (?e - 52)" by (simp add: ulp_def)
  have d: "k + 1 - (?e - 52) \<ge> 0" using assms(3) by simp
  have q: "(2::rat) powi (k + 1) / ulp x = of_int (2 ^ nat (k + 1 - (?e - 52)))"
    unfolding u using d by (simp add: power_int_nonneg_exp flip: power_int_diff)
  have "x / ulp x \<le> 2 powi (k + 1) / ulp x"
    using assms(2) by (simp add: divide_right_mono)
  then have "roundTiesToEven (x / ulp x) \<le> roundTiesToEven (2 powi (k + 1) / ulp x)"
    by (rule roundTiesToEven_mono)
  also have "\<dots> = 2 ^ nat (k + 1 - (?e - 52))"
    unfolding q by (rule roundTiesToEven_of_int)
  finally have "(of_int (roundTiesToEven (x / ulp x)) :: rat) \<le> of_int (2 ^ nat (k + 1 - (?e - 52)))"
    by (simp only: of_int_le_iff)
  then have "to_double x \<le> of_int (2 ^ nat (k + 1 - (?e - 52))) * ulp x"
    unfolding to_double_def by (simp add: mult_right_mono)
  also have "\<dots> = 2 powi (k + 1)"
    unfolding q [symmetric] by simp
  finally show ?thesis .
qed

lemma to_double_ge_binade:
  assumes "0 < x" "- 1022 \<le> binade x"
  shows "2 powi binade x \<le> to_double x"
proof -
  have u: "ulp x = 2 powi (binade x - 52)"
    using assms(2) by (simp add: ulp_def max_def)
  have q: "(2::rat) powi binade x / ulp x = of_int (2 ^ 52)"
    unfolding u by (simp flip: power_int_diff)
  have "2 powi binade x \<le> x"
    using binade_bounds(1) [of x] assms(1) by simp
  then have "2 powi binade x / ulp x \<le> x / ulp x"
    by (simp add: divide_right_mono)
  then have "roundTiesToEven (2 powi binade x / ulp x) \<le> roundTiesToEven (x / ulp x)"
    by (rule roundTiesToEven_mono)
  then have "2 ^ 52 \<le> roundTiesToEven (x / ulp x)"
    unfolding q by (simp only: roundTiesToEven_of_int)
  then have "(of_int (2 ^ 52) :: rat) \<le> of_int (roundTiesToEven (x / ulp x))"
    by (simp only: of_int_le_iff)
  then have "of_int (2 ^ 52) * ulp x \<le> to_double x"
    unfolding to_double_def by (simp add: mult_right_mono)
  then show ?thesis
    unfolding q [symmetric] by simp
qed

lemma to_double_ge_pow2:
  assumes "2 powi k \<le> x" "- 1022 \<le> k"
  shows "2 powi k \<le> to_double x"
proof -
  have "(0::rat) < 2 powi k" by simp
  with assms(1) have x: "0 < x" by linarith
  have "2 powi k \<le> \<bar>x\<bar>" using assms(1) x by simp
  also have "\<dots> < 2 powi (binade x + 1)" using x by (intro binade_bounds) simp
  finally have "k < binade x + 1" by (rule pow2_less_imp_less)
  then have k: "k \<le> binade x" by simp
  then have "(2::rat) powi k \<le> 2 powi binade x"
    by (intro power_int_increasing) simp_all
  also have "\<dots> \<le> to_double x"
    using x k assms(2) by (intro to_double_ge_binade) simp_all
  finally show ?thesis .
qed

lemma to_double_mono_pos:
  assumes "0 < x" "x \<le> y"
  shows "to_double x \<le> to_double y"
proof -
  have y: "0 < y" using assms by simp
  let ?ex = "max (binade x) (- 1022)" and ?ey = "max (binade y) (- 1022)"
  have b: "binade x \<le> binade y"
    using assms by (intro binade_mono) simp_all
  show ?thesis
  proof (cases "?ex = ?ey")
    case True
    then have u: "ulp x = ulp y" by (simp add: ulp_def)
    have "x / ulp y \<le> y / ulp y"
      using assms(2) by (simp add: divide_right_mono)
    then have "roundTiesToEven (x / ulp y) \<le> roundTiesToEven (y / ulp y)"
      by (rule roundTiesToEven_mono)
    then have "(of_int (roundTiesToEven (x / ulp y)) :: rat) \<le> of_int (roundTiesToEven (y / ulp y))"
      by (simp only: of_int_le_iff)
    then show ?thesis
      unfolding to_double_def u by (simp add: mult_right_mono)
  next
    case False
    with b have lt: "?ex < binade y" and n: "- 1022 \<le> binade y"
      by (auto simp add: max_def split: if_splits)
    have "x < 2 powi (binade x + 1)"
      using binade_bounds(2) [of x] assms(1) by simp
    also have "\<dots> \<le> 2 powi (?ex + 1)"
      by (intro power_int_increasing) simp_all
    finally have "x \<le> 2 powi (?ex + 1)" by simp
    with assms(1) have "to_double x \<le> 2 powi (?ex + 1)"
      by (intro to_double_le_pow2) simp_all
    also have "\<dots> \<le> 2 powi binade y"
    proof (rule power_int_increasing)
      show "?ex + 1 \<le> binade y" using lt by linarith
    qed simp
    also have "\<dots> \<le> to_double y"
      using y n by (rule to_double_ge_binade)
    finally show ?thesis .
  qed
qed

lemma to_double_mono:
  assumes "x \<le> y"
  shows "to_double x \<le> to_double y"
proof -
  consider "0 < x" | "x \<le> 0" "0 \<le> y" | "y < 0" by linarith
  then show ?thesis
  proof cases
    case 1
    then show ?thesis using assms by (rule to_double_mono_pos)
  next
    case 2
    have "to_double x = - to_double (- x)"
      by (simp add: to_double_minus)
    moreover have "0 \<le> to_double (- x)"
      using 2(1) by (intro to_double_nonneg) simp
    moreover have "0 \<le> to_double y"
      using 2(2) by (rule to_double_nonneg)
    ultimately show ?thesis by linarith
  next
    case 3
    then have "to_double (- y) \<le> to_double (- x)"
      using assms by (intro to_double_mono_pos) simp_all
    then show ?thesis
      by (simp add: to_double_minus)
  qed
qed


lemma to_double_error:
  assumes "\<bar>x\<bar> < 2 powi (k + 1)" "- 1022 \<le> k"
  shows "\<bar>to_double x - x\<bar> \<le> 2 powi (k - 53)"
proof (cases "x = 0")
  case True
  then show ?thesis by simp
next
  case False
  have "2 powi binade x \<le> \<bar>x\<bar>" using False by (rule binade_bounds)
  with assms(1) have "(2::rat) powi binade x < 2 powi (k + 1)" by simp
  then have "binade x < k + 1" by (rule pow2_less_imp_less)
  then have "max (binade x) (- 1022) - 52 \<le> k - 52"
    using assms(2) by simp
  then have u: "ulp x \<le> 2 powi (k - 52)"
    unfolding ulp_def by (intro power_int_increasing) simp_all
  let ?t = "x / ulp x"
  have "\<bar>of_int (roundTiesToEven ?t) - ?t\<bar> \<le> 1 / 2"
    using roundTiesToEven_bounds [of ?t] by linarith
  then have "\<bar>of_int (roundTiesToEven ?t) - ?t\<bar> * ulp x \<le> 1 / 2 * ulp x"
    by (intro mult_right_mono) simp_all
  moreover have "\<bar>of_int (roundTiesToEven ?t) - ?t\<bar> * ulp x = \<bar>to_double x - x\<bar>"
  proof -
    have "to_double x - x = (of_int (roundTiesToEven ?t) - ?t) * ulp x"
      by (simp add: to_double_def left_diff_distrib)
    then have "\<bar>to_double x - x\<bar> = \<bar>of_int (roundTiesToEven ?t) - ?t\<bar> * \<bar>ulp x\<bar>"
      by (simp only: abs_mult)
    then show ?thesis by simp
  qed
  ultimately have "\<bar>to_double x - x\<bar> \<le> 1 / 2 * ulp x"
    by simp
  also have "\<dots> \<le> 1 / 2 * 2 powi (k - 52)"
    using u by simp
  also have "\<dots> = 2 powi (k - 53)"
    using power_int_add [of "2::rat" "k - 53" 1] by simp
  finally show ?thesis .
qed

text \<open>The whole numbers that the properties below meet are doubles.\<close>

lemma to_double_consts:
  "to_double 40 = 40" "to_double 50 = 50" "to_double 70 = 70" "to_double 80 = 80"
  "to_double 150 = 150" "to_double 180 = 180" "to_double 200 = 200" "to_double 220 = 220"
  "to_double 350 = 350"
  by code_simp+

lemma to_double_on_grid:
  assumes "ulp y = u" "y = of_int m * u"
  shows "to_double y = y"
proof -
  have "u \<noteq> 0" using assms(1) ulp_neq_0 [of y] by simp
  then have "y / ulp y = of_int m"
    using assms by simp
  then show ?thesis
    unfolding to_double_def using assms by (simp add: roundTiesToEven_of_int)
qed

lemma to_double_idem_pos:
  assumes "0 < x"
  shows "to_double (to_double x) = to_double x"
proof -
  define e where "e = max (binade x) (- 1022)"
  define m where "m = roundTiesToEven (x / ulp x)"
  define y where "y = to_double x"
  have u: "ulp x = 2 powi (e - 52)" by (simp add: ulp_def e_def)
  have y: "y = of_int m * ulp x" by (simp add: y_def m_def to_double_def)
  have y0: "0 \<le> y" unfolding y_def using assms by (intro to_double_nonneg) simp
  have "x < 2 powi (binade x + 1)"
    using binade_bounds(2) [of x] assms by simp
  also have "\<dots> \<le> 2 powi (e + 1)"
    unfolding e_def by (intro power_int_increasing) simp_all
  finally have "x \<le> 2 powi (e + 1)" by simp
  then have yle: "y \<le> 2 powi (e + 1)"
    unfolding y_def using assms by (intro to_double_le_pow2) (simp_all add: e_def)
  consider "y = 0" | "y = 2 powi (e + 1)" | "0 < y" "y < 2 powi (e + 1)"
    using y0 yle by linarith
  then have "to_double y = y"
  proof cases
    case 1
    then show ?thesis by simp
  next
    case 2
    have e: "- 1022 \<le> e" by (simp add: e_def)
    have "(2::rat) powi (e + 1) < 2 powi (e + 1 + 1)"
      by (intro power_int_strict_increasing) simp_all
    then have "binade y = e + 1"
      unfolding 2 by (intro binade_eqI) simp_all
    then have uy: "ulp y = 2 powi (e - 51)"
      using e by (simp add: ulp_def max_def)
    have "(2::rat) powi (52 + (e - 51)) = 2 powi 52 * 2 powi (e - 51)"
      by (rule power_int_add) simp
    moreover have "52 + (e - 51) = e + 1" by simp
    ultimately have "(2::rat) powi (e + 1) = 2 powi 52 * 2 powi (e - 51)"
      by (simp only:)
    then have "y = of_int (2 ^ 52) * 2 powi (e - 51)"
      unfolding 2 by simp
    with uy show ?thesis by (rule to_double_on_grid)
  next
    case 3
    have "max (binade y) (- 1022) = e"
    proof (cases "- 1022 \<le> binade x")
      case True
      then have ex: "e = binade x" by (simp add: e_def)
      have "2 powi binade x \<le> y"
        unfolding y_def using assms True by (rule to_double_ge_binade)
      then have "binade y = e"
        using 3 unfolding ex by (intro binade_eqI) simp_all
      then show ?thesis by (simp add: e_def)
    next
      case False
      then have ex: "e = - 1022" by (simp add: e_def)
      have "2 powi binade y \<le> \<bar>y\<bar>" using 3(1) by (intro binade_bounds) simp
      with 3 have "(2::rat) powi binade y < 2 powi (e + 1)" by simp
      then have "binade y < e + 1" by (rule pow2_less_imp_less)
      then show ?thesis by (simp add: ex)
    qed
    then have "ulp y = ulp x" by (simp add: ulp_def e_def)
    then show ?thesis using y by (rule to_double_on_grid)
  qed
  then show ?thesis by (simp add: y_def)
qed

lemma to_double_idem: "to_double (to_double x) = to_double x"
proof -
  consider "0 < x" | "x = 0" | "x < 0" by linarith
  then show ?thesis
  proof cases
    case 1
    then show ?thesis by (rule to_double_idem_pos)
  next
    case 2
    then show ?thesis by simp
  next
    case 3
    then have "to_double (to_double (- x)) = to_double (- x)"
      by (intro to_double_idem_pos) simp
    then show ?thesis by (simp add: to_double_minus)
  qed
qed

subsection \<open>The player stays between the planes\<close>

lemma createParticles_loop_player: "player (createParticles_loop n x y w) = player w"
  by (induction n arbitrary: w)
    (simp_all add: Particle_new_def Math_random_def Let_def split: prod.splits)

lemma flipGravity_player: "player (flipGravity w) = Player_flip (player w)"
  by (simp add: flipGravity_def Let_def createParticles_def createParticles_loop_player)

lemma player_inv_new: "player_inv Player_new"
  by (simp add: player_inv_def Player_new_def CONFIG_defs)

lemma player_inv_reset: "p_height p = CONFIG_player_size \<Longrightarrow> player_inv (Player_reset p)"
  by (simp add: player_inv_def Player_reset_def CONFIG_defs)

lemma player_inv_flip: "player_inv p \<Longrightarrow> player_inv (Player_flip p)"
  by (simp add: player_inv_def Player_flip_def CONFIG_defs)

lemma Ints_half_sum: "2 * a \<in> \<int> \<Longrightarrow> 2 * b \<in> \<int> \<Longrightarrow> 2 * (a + b) \<in> (\<int> :: rat set)"
  by (simp add: distrib_left)

lemma player_inv_update_down:
  assumes "player_inv p" "gravity p = 1 / 2"
  shows "player_inv (Player_update p)"
proof -
  from assms have v: "0 \<le> velocityY p" "velocityY p \<le> 8"
    and y: "50 \<le> p_y p" "p_y p \<le> 320"
    and h: "p_height p = 30" and i: "2 * p_y p \<in> \<int>" "2 * velocityY p \<in> \<int>"
    by (simp_all add: player_inv_def CONFIG_defs zero_le_mult_iff abs_le_iff)
  have i1: "2 * (velocityY p + 1 / 2) \<in> \<int>"
    using i(2) by (simp add: distrib_left)
  have i2: "2 * (p_y p + (velocityY p + 1 / 2)) \<in> \<int>"
    using i(1) i1 by (rule Ints_half_sum)
  have i3: "2 * (p_y p + 8) \<in> \<int>"
    using i(1) by (simp add: distrib_left)
  show ?thesis
    using v y i1 i2 i3
    by (simp add: player_inv_def Player_update_def CONFIG_defs Let_def abs_if sgn_if assms(2) h)
qed

lemma player_inv_update_up:
  assumes "player_inv p" "gravity p = - (1 / 2)"
  shows "player_inv (Player_update p)"
proof -
  from assms have v: "velocityY p \<le> 0" "- 8 \<le> velocityY p"
    and y: "50 \<le> p_y p" "p_y p \<le> 320"
    and h: "p_height p = 30" and i: "2 * p_y p \<in> \<int>" "2 * velocityY p \<in> \<int>"
    by (simp_all add: player_inv_def CONFIG_defs zero_le_mult_iff abs_le_iff)
  have i1: "2 * (velocityY p - 1 / 2) \<in> \<int>"
    using i(2) by (simp add: right_diff_distrib)
  have i2: "2 * (p_y p + (velocityY p - 1 / 2)) \<in> \<int>"
    using i(1) i1 by (rule Ints_half_sum)
  have i3: "2 * (p_y p - 8) \<in> \<int>"
    using i(1) by (simp add: right_diff_distrib)
  show ?thesis
    using v y i1 i2 i3
    by (simp add: player_inv_def Player_update_def CONFIG_defs Let_def abs_if sgn_if assms(2) h)
qed

lemma player_inv_update: "player_inv p \<Longrightarrow> player_inv (Player_update p)"
proof -
  assume a: "player_inv p"
  then have "gravity p = 1 / 2 \<or> gravity p = - (1 / 2)"
    by (auto simp add: player_inv_def CONFIG_defs abs_if split: if_splits)
  with a show ?thesis
    by (auto intro: player_inv_update_down player_inv_update_up)
qed

lemma player_inv_call: "player_inv (player w) \<Longrightarrow> player_inv (player (call c w))"
  by (cases c) (simp_all add: flipGravity_player player_inv_flip player_inv_update)

lemma player_inv_calls: "player_inv (player w) \<Longrightarrow> player_inv (player (calls cs w))"
  unfolding calls_def
  by (induction cs arbitrary: w) (simp_all add: player_inv_call)

text \<open>
  The same for the whole script: whatever the browser does, from load on, the player is
  between the planes. Only \<open>flipGravity\<close>, \<open>update\<close> and \<open>reset\<close> write the player.
\<close>

lemma checkCollisions_loop_player: "player (checkCollisions_loop obs w) = player w"
  by (induction obs) (simp_all add: gameOver_def Let_def)

lemma player_gameLoop:
  "player (gameLoop w)
     = (if isRunning (gameState w) then Player_update (player w) else player w)"
  by (simp add: gameLoop_def requestAnimationFrame_def checkCollisions_def
      checkCollisions_loop_player updateScore_def generateObstacle_def Math_random_def
      Obstacle_new_def updateParticles_def updateObstacles_def Let_def)

lemma player_startGame: "player (startGame w) = Player_update (Player_reset (player w))"
  by (simp add: startGame_def Let_def player_gameLoop)

lemma player_inv_handle:
  assumes "player_inv (player w)"
  shows "player_inv (player (handle e w))"
proof -
  have "p_height (player w) = CONFIG_player_size"
    using assms by (simp add: player_inv_def)
  then have "player_inv (Player_update (Player_reset (player w)))"
    by (intro player_inv_update player_inv_reset)
  then show ?thesis
    using assms
    by (cases e)
      (simp_all add: restartGame_def player_startGame player_gameLoop flipGravity_player
        player_inv_flip player_inv_update)
qed

lemma player_inv_events:
  "player_inv (player (fold handle es (initial_world store rnd)))"
proof -
  have "player_inv (player (fold handle es w))" if "player_inv (player w)" for w
    using that by (induction es arbitrary: w) (simp_all add: player_inv_handle)
  moreover have "player_inv (player (initial_world store rnd))"
    by (simp add: initial_world_def player_inv_new)
  ultimately show ?thesis
    by blast
qed

text \<open>
  C1. Start from the reset state of a player of the configured size and run any sequence of
  \<open>flipGravity()\<close> and \<open>update()\<close> calls. Afterwards (so in particular after every
  \<open>update()\<close>) the player's \<open>y\<close> is at least the ceiling plane \<open>groundHeight\<close> and at most
  the floor plane minus the player's height, \<open>canvas.height - groundHeight - height\<close>; the
  two bounds are \<open>50\<close> and \<open>320\<close>.
\<close>

theorem player_y_within_planes:
  assumes "p_height (player w) = CONFIG_player_size"
  shows "CONFIG_game_groundHeight \<le> p_y (player (calls cs (w\<lparr>player := Player_reset (player w)\<rparr>)))
       \<and> p_y (player (calls cs (w\<lparr>player := Player_reset (player w)\<rparr>)))
           \<le> canvas_height - CONFIG_game_groundHeight
               - p_height (player (calls cs (w\<lparr>player := Player_reset (player w)\<rparr>)))
       \<and> p_y (player (calls cs (w\<lparr>player := Player_reset (player w)\<rparr>))) \<in> {50 .. 320}"
proof -
  let ?w0 = "w\<lparr>player := Player_reset (player w)\<rparr>"
  have "player_inv (player ?w0)"
    using assms by (simp add: player_inv_reset)
  then have "player_inv (player (calls cs ?w0))"
    by (rule player_inv_calls)
  then show ?thesis
    by (simp add: player_inv_def CONFIG_defs)
qed

theorem player_y_within_planes_witness:
  "p_height (player (initial_world Map.empty (\<lambda>_. 1 / 2))) = CONFIG_player_size
   \<and> p_y (player (calls [Call_update, Call_flipGravity, Call_update, Call_update]
        ((initial_world Map.empty (\<lambda>_. 1 / 2))
           \<lparr>player := Player_reset (player (initial_world Map.empty (\<lambda>_. 1 / 2)))\<rparr>)))
       \<in> {50 .. 320}"
  using player_y_within_planes
    [of "initial_world Map.empty (\<lambda>_. 1 / 2)"
        "[Call_update, Call_flipGravity, Call_update, Call_update]"]
  by (simp add: initial_world_def Player_new_def)

subsection \<open>Flipping gravity\<close>

text \<open>
  C2. In every world, two \<open>flipGravity()\<close> calls in succession leave the player's gravity
  at the value it had, a single call negates it, and after each of the two calls the
  velocity is \<open>0\<close>. The function has no guard: this holds whatever the state.
\<close>

theorem flipGravity_twice:
  "gravity (player (flipGravity (flipGravity w))) = gravity (player w)
   \<and> gravity (player (flipGravity w)) = - gravity (player w)
   \<and> velocityY (player (flipGravity w)) = 0
   \<and> velocityY (player (flipGravity (flipGravity w))) = 0"
  by (simp add: flipGravity_player Player_flip_def)

subsection \<open>One hundred updates without a flip\<close>

lemma Player_reset_falling: "Player_reset p = falling p 50 0 (isOnGround p)"
  by (simp add: Player_reset_def falling_def CONFIG_defs)

lemma falling_step:
  assumes "p_height p = 30" "0 \<le> v"
  shows "Player_update (falling p y v b) =
     (if y + min (v + 1 / 2) 8 \<ge> 320 then falling p 320 0 True
      else falling p (y + min (v + 1 / 2) 8) (min (v + 1 / 2) 8) b)"
  using assms
  by (simp add: falling_def Player_update_def Let_def CONFIG_defs abs_if sgn_if min_def)

lemma falling_lands:
  assumes "p_height p = 30"
  shows "(Player_update ^^ 42) (falling p 50 0 b) = falling p 320 0 True"
  using assms by (simp add: eval_nat_numeral falling_step)

lemma falling_rests:
  assumes "p_height p = 30"
  shows "(Player_update ^^ n) (falling p 320 0 True) = falling p 320 0 True"
  using assms by (induction n) (simp_all add: falling_step)

text \<open>
  C7. From the reset state of a player of the configured size (\<open>y = groundHeight\<close>,
  velocity \<open>0\<close>, gravity \<open>+0.5\<close>), one hundred \<open>update()\<close> calls and nothing else leave the
  player at \<open>y = canvas.height - groundHeight - height = 320\<close> with velocity \<open>0\<close> and
  \<open>isOnGround\<close> set.
\<close>

theorem hundred_updates_land:
  assumes "p_height p = CONFIG_player_size"
  shows "p_y ((Player_update ^^ 100) (Player_reset p))
           = canvas_height - CONFIG_game_groundHeight
               - p_height ((Player_update ^^ 100) (Player_reset p))
       \<and> p_y ((Player_update ^^ 100) (Player_reset p)) = 320
       \<and> velocityY ((Player_update ^^ 100) (Player_reset p)) = 0
       \<and> isOnGround ((Player_update ^^ 100) (Player_reset p))"
proof -
  have h: "p_height p = 30"
    using assms by (simp add: CONFIG_defs)
  have n: "(100::nat) = 58 + 42"
    by simp
  have "(Player_update ^^ 100) (Player_reset p)
          = (Player_update ^^ 58) ((Player_update ^^ 42) (falling p 50 0 (isOnGround p)))"
    by (simp only: n funpow_add o_apply Player_reset_falling)
  also have "\<dots> = falling p 320 0 True"
    using h by (simp only: falling_lands falling_rests)
  finally show ?thesis
    using h by (simp add: falling_def CONFIG_defs)
qed

theorem hundred_updates_land_witness:
  "p_height Player_new = CONFIG_player_size
   \<and> p_y ((Player_update ^^ 100) (Player_reset Player_new)) = 320
   \<and> velocityY ((Player_update ^^ 100) (Player_reset Player_new)) = 0
   \<and> isOnGround ((Player_update ^^ 100) (Player_reset Player_new))"
  using hundred_updates_land [of Player_new]
  by (simp add: Player_new_def)

subsection \<open>Collision detection\<close>


text \<open>A double lies below a rounded number only if it lies below the number.\<close>

lemma less_to_double_imp_less:
  assumes "to_double d = d" "d < to_double s"
  shows "d < s"
proof (rule ccontr)
  assume "\<not> d < s"
  then have "to_double s \<le> to_double d"
    by (intro to_double_mono) simp
  with assms show False by simp
qed

lemma to_double_less_imp_less:
  assumes "to_double d = d" "to_double s > d"
  shows "s > d"
  using assms by (rule less_to_double_imp_less)


lemma thin_obstacle_height:
  assumes "rand w (randPos w) = 22517998136853 / 2 ^ 52"
  shows "o_height (fst (Obstacle_new x True w)) = o_height thin_obstacle"
proof -
  have "o_height (fst (Obstacle_new x True w))
          = to_double (to_double (rand w (randPos w) * 100) + 100)"
    by (simp add: Obstacle_new_def Math_random_def Let_def)
  also have "\<dots> = 201 / 2 + 1 / 2 ^ 46"
    unfolding assms by code_simp
  also have "\<dots> = o_height thin_obstacle"
    by (simp add: thin_obstacle_def)
  finally show ?thesis .
qed





subsection \<open>Removing obstacles\<close>

text \<open>
  The two backward loops start at \<open>i + 1 = length\<close>; a pass that may read index \<open>i\<close> finds
  it in range and hands on a list that has the index \<open>i - 1\<close> of the next pass.
\<close>

lemma loop_index_in_range:
  assumes "Suc i \<le> length xs"
  shows "i < length xs \<and> i \<le> length (xs[i := u]) \<and> i \<le> length (splice1 i (xs[i := u]))"
  using assms by (simp add: splice1_def)

lemma updateObstacles_loop_eq:
  "i \<le> length obs \<Longrightarrow>
   updateObstacles_loop i obs
     = filter (\<lambda>ob. \<not> isOffScreen ob) (map Obstacle_update (take i obs)) @ drop i obs"
proof (induction i arbitrary: obs)
  case 0
  then show ?case by simp
next
  case (Suc i)
  then have i: "i < length obs" by simp
  let ?u = "Obstacle_update (obs ! i)"
  let ?obs1 = "obs[i := ?u]"
  have t: "take (Suc i) obs = take i obs @ [obs ! i]"
    using i by (simp add: take_Suc_conv_app_nth)
  have d: "drop i ?obs1 = ?u # drop (Suc i) obs"
    using i by (simp add: Cons_nth_drop_Suc [symmetric])
  show ?case
  proof (cases "isOffScreen ?u")
    case True
    have "updateObstacles_loop (Suc i) obs = updateObstacles_loop i (splice1 i ?obs1)"
      using True i by (simp add: Let_def)
    also have "\<dots> = filter (\<lambda>ob. \<not> isOffScreen ob)
                       (map Obstacle_update (take i (splice1 i ?obs1)))
                     @ drop i (splice1 i ?obs1)"
      using i by (intro Suc.IH) (simp add: splice1_def)
    also have "\<dots> = filter (\<lambda>ob. \<not> isOffScreen ob) (map Obstacle_update (take i obs))
                     @ drop (Suc i) obs"
      using i by (simp add: splice1_def)
    finally show ?thesis using True by (simp add: t)
  next
    case False
    have "updateObstacles_loop (Suc i) obs = updateObstacles_loop i ?obs1"
      using False i by (simp add: Let_def)
    also have "\<dots> = filter (\<lambda>ob. \<not> isOffScreen ob) (map Obstacle_update (take i ?obs1))
                     @ drop i ?obs1"
      using i by (intro Suc.IH) simp
    also have "\<dots> = filter (\<lambda>ob. \<not> isOffScreen ob) (map Obstacle_update (take i obs))
                     @ ?u # drop (Suc i) obs"
      using i by (simp add: d)
    finally show ?thesis using False by (simp add: t)
  qed
qed

text \<open>
  C4. \<open>updateObstacles\<close> moves every obstacle and leaves in the collection, in their order,
  exactly the moved obstacles whose right edge \<open>x + width\<close> is at \<open>0\<close> or to its right: an
  obstacle is removed if and only if its right edge is strictly left of \<open>0\<close>.
\<close>

theorem obstacle_removed_iff_past_left_edge:
  "obstacles (updateObstacles w)
     = filter (\<lambda>ob. 0 \<le> o_x ob + o_width ob) (map Obstacle_update (obstacles w))"
  by (simp add: updateObstacles_def updateObstacles_loop_eq isOffScreen_def not_less)

text \<open>
  Three obstacles of width \<open>40\<close> and speed \<open>5\<close>: the one that moves to \<open>x = -41\<close> goes, the
  ones that move to \<open>-40\<close> (right edge exactly \<open>0\<close>) and to \<open>95\<close> stay.
\<close>

theorem obstacle_removed_iff_past_left_edge_witness:
  "map o_x (obstacles (updateObstacles
      ((initial_world Map.empty (\<lambda>_. 0))
         \<lparr>obstacles := [box (- 36) 50 40 100, box (- 35) 50 40 100, box 100 50 40 100]\<rparr>)))
     = [- 40, 95]"
  using obstacle_removed_iff_past_left_edge
    [of "(initial_world Map.empty (\<lambda>_. 0))
           \<lparr>obstacles := [box (- 36) 50 40 100, box (- 35) 50 40 100, box 100 50 40 100]\<rparr>"]
  by (simp add: box_def Obstacle_update_def Let_def CONFIG_defs)

subsection \<open>The tick\<close>

lemma checkCollisions_loop_eq:
  "checkCollisions_loop obs w
     = (if \<exists>ob \<in> set obs. collidesWith ob (player w) then gameOver w else w)"
  by (induction obs) simp_all

lemma checkCollisions_eq:
  "checkCollisions w
     = (if \<exists>ob \<in> set (obstacles w). collidesWith ob (player w) then gameOver w else w)"
  by (simp add: checkCollisions_def checkCollisions_loop_eq)

lemmas tick_defs =
  gameLoop_def requestAnimationFrame_def checkCollisions_eq gameOver_def updateScore_def
  generateObstacle_def Math_random_def Obstacle_new_def updateParticles_def
  updateObstacles_def Let_def

text \<open>
  C5. A tick entered while running adds exactly \<open>CONFIG.game.scoreMultiplier\<close>, which is
  \<open>1\<close>, to the score (also the tick that ends the run); a tick entered while not running
  (idle or over) returns the world as it was, so the score does not change.
\<close>

theorem score_per_tick:
  "score (gameState (gameLoop w))
     = (if isRunning (gameState w) then score (gameState w) + CONFIG_game_scoreMultiplier
        else score (gameState w))
   \<and> CONFIG_game_scoreMultiplier = 1
   \<and> (\<not> isRunning (gameState w) \<longrightarrow> gameLoop w = w)"
  by (simp add: tick_defs CONFIG_game_scoreMultiplier_def)

theorem score_per_tick_witness:
  "isRunning (gameState (running_world 7 7 0 (\<lambda>_. 0)))
   \<and> score (gameState (gameLoop (running_world 7 7 0 (\<lambda>_. 0)))) = 8
   \<and> \<not> isRunning (gameState (initial_world Map.empty (\<lambda>_. 0)))
   \<and> gameLoop (initial_world Map.empty (\<lambda>_. 0)) = initial_world Map.empty (\<lambda>_. 0)"
  using score_per_tick [of "running_world 7 7 0 (\<lambda>_. 0)"]
    score_per_tick [of "initial_world Map.empty (\<lambda>_. 0)"]
  by (simp add: running_world_def initial_world_def)

subsection \<open>Game over\<close>

text \<open>
  C6. \<open>gameOver\<close> takes \<open>finalScore = floor(score)\<close>. If it is strictly greater than
  \<open>gameState.highScore\<close>, the best score becomes \<open>finalScore\<close> and \<open>finalScore\<close> is stored
  under the key \<open>gravityRunnerHighScore\<close>; otherwise the best score and the storage are
  what they were.
\<close>

theorem gameOver_best_score:
  "(\<lfloor>score (gameState w)\<rfloor> > highScore (gameState w) \<longrightarrow>
      highScore (gameState (gameOver w)) = \<lfloor>score (gameState w)\<rfloor>
      \<and> localStorage (gameOver w) = (localStorage w)(storageKey \<mapsto> \<lfloor>score (gameState w)\<rfloor>))
   \<and> (\<not> \<lfloor>score (gameState w)\<rfloor> > highScore (gameState w) \<longrightarrow>
      highScore (gameState (gameOver w)) = highScore (gameState w)
      \<and> localStorage (gameOver w) = localStorage w)
   \<and> storageKey = ''gravityRunnerHighScore''"
  by (simp add: gameOver_def Let_def storageKey_def)

text \<open>The two runs of the scenario: score \<open>50\<close> and score \<open>10\<close>, each with best \<open>30\<close>.\<close>

theorem gameOver_best_score_witness:
  "\<lfloor>score (gameState (running_world 50 50 30 (\<lambda>_. 0)))\<rfloor>
      > highScore (gameState (running_world 50 50 30 (\<lambda>_. 0)))
   \<and> highScore (gameState (gameOver (running_world 50 50 30 (\<lambda>_. 0)))) = 50
   \<and> localStorage (gameOver (running_world 50 50 30 (\<lambda>_. 0))) ''gravityRunnerHighScore''
       = Some 50
   \<and> \<not> \<lfloor>score (gameState (running_world 10 10 30 (\<lambda>_. 0)))\<rfloor>
      > highScore (gameState (running_world 10 10 30 (\<lambda>_. 0)))
   \<and> highScore (gameState (gameOver (running_world 10 10 30 (\<lambda>_. 0)))) = 30
   \<and> localStorage (gameOver (running_world 10 10 30 (\<lambda>_. 0))) ''gravityRunnerHighScore''
       = None"
  using gameOver_best_score [of "running_world 50 50 30 (\<lambda>_. 0)"]
    gameOver_best_score [of "running_world 10 10 30 (\<lambda>_. 0)"]
  by (simp add: running_world_def initial_world_def)

subsection \<open>Obstacle generation\<close>

text \<open>
  The gap of a draw in \<open>[0, 1)\<close>: between \<open>200\<close> and \<open>350\<close>, both included, and within
  \<open>2 ^ -44\<close> of the exact \<open>r * 150 + 200\<close>. The threshold \<open>gap / 5\<close> is at least \<open>40\<close>.
\<close>

lemma gap_of_draw_ge:
  assumes "0 \<le> r"
  shows "200 \<le> gap_of_draw r"
proof -
  have "to_double 0 \<le> to_double (r * 150)"
    using assms by (intro to_double_mono) simp
  then have "200 \<le> to_double (r * 150) + 200"
    by simp
  then have "to_double 200 \<le> to_double (to_double (r * 150) + 200)"
    by (rule to_double_mono)
  then show ?thesis
    by (simp add: gap_of_draw_def CONFIG_defs to_double_consts)
qed

lemma gap_of_draw_le:
  assumes "r < 1"
  shows "gap_of_draw r \<le> 350"
proof -
  have "to_double (r * 150) \<le> to_double 150"
    using assms by (intro to_double_mono) simp
  then have "to_double (r * 150) + 200 \<le> 350"
    by (simp add: to_double_consts)
  then have "to_double (to_double (r * 150) + 200) \<le> to_double 350"
    by (rule to_double_mono)
  then show ?thesis
    by (simp add: gap_of_draw_def CONFIG_defs to_double_consts)
qed

lemma gap_of_draw_error:
  assumes "0 \<le> r" "r < 1"
  shows "\<bar>gap_of_draw r - (r * 150 + 200)\<bar> \<le> 1 / 2 ^ 44"
proof -
  define a where "a = r * 150"
  define s where "s = to_double a + 200"
  have a: "0 \<le> a" "a < 150" using assms by (simp_all add: a_def)
  have fa: "0 \<le> to_double a" "to_double a \<le> 150"
    using to_double_mono [of 0 a] to_double_mono [of a 150] a
    by (simp_all add: to_double_consts)
  have "\<bar>a\<bar> < 2 powi (7 + 1)" using a by simp
  then have ea: "\<bar>to_double a - a\<bar> \<le> 2 powi (7 - 53)"
    by (rule to_double_error) simp
  have "\<bar>s\<bar> < 2 powi (8 + 1)" using fa by (simp add: s_def)
  then have es: "\<bar>to_double s - s\<bar> \<le> 2 powi (8 - 53)"
    by (rule to_double_error) simp
  have p: "(2::rat) powi (7 - 53) = 1 / 2 ^ 46" "(2::rat) powi (8 - 53) = 1 / 2 ^ 45"
    by (simp_all add: power_int_minus_divide)
  have "gap_of_draw r - (r * 150 + 200) = (to_double s - s) + (to_double a - a)"
    by (simp add: gap_of_draw_def CONFIG_defs to_double_consts s_def a_def)
  then have "\<bar>gap_of_draw r - (r * 150 + 200)\<bar> \<le> \<bar>to_double s - s\<bar> + \<bar>to_double a - a\<bar>"
    by (simp only: abs_triangle_ineq)
  also have "\<dots> \<le> 1 / 2 ^ 45 + 1 / 2 ^ 46"
    using ea es unfolding p by linarith
  also have "\<dots> \<le> 1 / 2 ^ 44" by simp
  finally show ?thesis .
qed

lemma threshold_ge:
  assumes "0 \<le> r"
  shows "40 \<le> to_double (gap_of_draw r / CONFIG_obstacle_speed)"
proof -
  have "40 \<le> gap_of_draw r / 5"
    using gap_of_draw_ge [OF assms] by simp
  then have "to_double 40 \<le> to_double (gap_of_draw r / 5)"
    by (rule to_double_mono)
  then show ?thesis
    by (simp add: CONFIG_defs to_double_consts)
qed

lemma gap_of_draw_0: "gap_of_draw 0 = 200"
  by (simp add: gap_of_draw_def CONFIG_defs to_double_consts)

text \<open>
  The exact gap is an affine image of the draw: the draws in \<open>[0, 1)\<close> whose exact gap falls
  in a subinterval \<open>[a, b)\<close> of \<open>[200, 350)\<close> form an interval of length \<open>(b - a) / 150\<close>, so a
  uniform draw gives a uniform exact gap.
\<close>

lemma gap_uniform:
  fixes a b :: rat
  assumes "200 \<le> a" "b \<le> 350"
  shows "{r. 0 \<le> r \<and> r < 1
            \<and> a \<le> r * (CONFIG_obstacle_maxGap - CONFIG_obstacle_minGap) + CONFIG_obstacle_minGap
            \<and> r * (CONFIG_obstacle_maxGap - CONFIG_obstacle_minGap) + CONFIG_obstacle_minGap < b}
         = {(a - 200) / 150 ..< (b - 200) / 150}"
  using assms by (auto simp add: CONFIG_defs field_simps)

text \<open>
  C8, as stated, fails. For the draw \<open>1 - 2 ^ -52\<close>, which is in \<open>[0, 1)\<close>, the product
  rounds to \<open>150 - 2 ^ -45\<close> and the sum to \<open>350\<close>: the gap is \<open>maxGap\<close>, outside
  \<open>[minGap, maxGap)\<close>. Seventy frames after the last spawn every gap below \<open>350\<close> would let
  the generator spawn; with this draw it does not.
\<close>

theorem gap_reaches_maxGap:
  "0 \<le> rand (running_world 70 70 0 (\<lambda>_. 1 - 1 / 2 ^ 52))
          (randPos (running_world 70 70 0 (\<lambda>_. 1 - 1 / 2 ^ 52)))
   \<and> rand (running_world 70 70 0 (\<lambda>_. 1 - 1 / 2 ^ 52))
          (randPos (running_world 70 70 0 (\<lambda>_. 1 - 1 / 2 ^ 52))) < 1
   \<and> gap_of_draw (rand (running_world 70 70 0 (\<lambda>_. 1 - 1 / 2 ^ 52))
          (randPos (running_world 70 70 0 (\<lambda>_. 1 - 1 / 2 ^ 52)))) = CONFIG_obstacle_maxGap
   \<and> \<not> gap_of_draw (rand (running_world 70 70 0 (\<lambda>_. 1 - 1 / 2 ^ 52))
          (randPos (running_world 70 70 0 (\<lambda>_. 1 - 1 / 2 ^ 52)))) < 350
   \<and> frame (gameState (running_world 70 70 0 (\<lambda>_. 1 - 1 / 2 ^ 52)))
       - lastObstacleFrame (running_world 70 70 0 (\<lambda>_. 1 - 1 / 2 ^ 52)) = 70
   \<and> obstacles (generateObstacle (running_world 70 70 0 (\<lambda>_. 1 - 1 / 2 ^ 52)))
       = obstacles (running_world 70 70 0 (\<lambda>_. 1 - 1 / 2 ^ 52))"
proof -
  have "gap_of_draw (1 - 1 / 2 ^ 52) = 350"
    by code_simp
  then have g: "gap_of_draw (4503599627370495 / 4503599627370496) = 350"
    by simp
  show ?thesis
    by (simp add: running_world_def initial_world_def generateObstacle_def Math_random_def
        Let_def g CONFIG_defs to_double_consts)
qed


text \<open>
  C8, amended. A call of \<open>generateObstacle\<close> takes the next draw \<open>r\<close> of \<open>Math.random()\<close> and
  forms the gap as the double value of \<open>r * (maxGap - minGap) + minGap\<close>. For \<open>r\<close> in \<open>[0, 1)\<close>
  the gap is in the closed range \<open>[minGap, maxGap] = [200, 350]\<close> and within \<open>2 ^ -44\<close> of the
  exact \<open>r * 150 + 200\<close>, which is uniform on \<open>[200, 350)\<close> when the draw is uniform on
  \<open>[0, 1)\<close>. If \<open>frame - lastObstacleFrame\<close> is strictly greater than the double quotient
  \<open>gap / CONFIG.obstacle.speed\<close> (the initial speed, \<open>5\<close>) the call appends exactly one
  obstacle, at \<open>x = canvas.width = 800\<close>, and sets \<open>lastObstacleFrame\<close> to the current
  frame; otherwise the obstacles and \<open>lastObstacleFrame\<close> are unchanged. Every call consumes
  a draw, so the next call forms its gap from a fresh one.
\<close>

theorem generateObstacle_spawn:
  assumes "0 \<le> rand w (randPos w)" "rand w (randPos w) < 1"
  shows "let r = rand w (randPos w); gap = gap_of_draw r
         in CONFIG_obstacle_minGap \<le> gap \<and> gap \<le> CONFIG_obstacle_maxGap
          \<and> 200 \<le> gap \<and> gap \<le> 350
          \<and> \<bar>gap - (r * (CONFIG_obstacle_maxGap - CONFIG_obstacle_minGap)
                      + CONFIG_obstacle_minGap)\<bar> \<le> 1 / 2 ^ 44
          \<and> (\<forall>a b. 200 \<le> a \<and> b \<le> 350 \<longrightarrow>
                {q. 0 \<le> q \<and> q < 1
                    \<and> a \<le> q * (CONFIG_obstacle_maxGap - CONFIG_obstacle_minGap)
                            + CONFIG_obstacle_minGap
                    \<and> q * (CONFIG_obstacle_maxGap - CONFIG_obstacle_minGap)
                         + CONFIG_obstacle_minGap < b}
                  = {(a - 200) / 150 ..< (b - 200) / 150})
          \<and> randPos w < randPos (generateObstacle w)
          \<and> (if of_int (frame (gameState w) - lastObstacleFrame w)
                   > to_double (gap / CONFIG_obstacle_speed)
             then (\<exists>ob. obstacles (generateObstacle w) = obstacles w @ [ob]
                        \<and> o_x ob = canvas_width \<and> canvas_width = 800)
                  \<and> lastObstacleFrame (generateObstacle w) = frame (gameState w)
             else obstacles (generateObstacle w) = obstacles w
                  \<and> lastObstacleFrame (generateObstacle w) = lastObstacleFrame w)
          \<and> CONFIG_obstacle_speed = 5"
proof -
  let ?r = "rand w (randPos w)"
  have b: "200 \<le> gap_of_draw ?r" "gap_of_draw ?r \<le> 350"
    using assms by (simp_all add: gap_of_draw_ge gap_of_draw_le)
  have e: "\<bar>gap_of_draw ?r - (?r * (CONFIG_obstacle_maxGap - CONFIG_obstacle_minGap)
                      + CONFIG_obstacle_minGap)\<bar> \<le> 1 / 2 ^ 44"
    using gap_of_draw_error [OF assms] by (simp add: CONFIG_defs)
  have u: "\<forall>a b. 200 \<le> a \<and> b \<le> 350 \<longrightarrow>
                {q. 0 \<le> q \<and> q < 1
                    \<and> a \<le> q * (CONFIG_obstacle_maxGap - CONFIG_obstacle_minGap)
                            + CONFIG_obstacle_minGap
                    \<and> q * (CONFIG_obstacle_maxGap - CONFIG_obstacle_minGap)
                         + CONFIG_obstacle_minGap < b}
                  = {(a - 200) / 150 ..< (b - 200) / 150}"
    using gap_uniform by blast
  have s: "randPos w < randPos (generateObstacle w)
          \<and> (if of_int (frame (gameState w) - lastObstacleFrame w)
                   > to_double (gap_of_draw ?r / CONFIG_obstacle_speed)
             then (\<exists>ob. obstacles (generateObstacle w) = obstacles w @ [ob]
                        \<and> o_x ob = canvas_width \<and> canvas_width = 800)
                  \<and> lastObstacleFrame (generateObstacle w) = frame (gameState w)
             else obstacles (generateObstacle w) = obstacles w
                  \<and> lastObstacleFrame (generateObstacle w) = lastObstacleFrame w)"
    by (simp add: generateObstacle_def Math_random_def Obstacle_new_def Let_def
        canvas_width_def CONFIG_canvas_width_def)
  have c: "CONFIG_obstacle_minGap = 200" "CONFIG_obstacle_maxGap = 350" "CONFIG_obstacle_speed = 5"
    by (simp_all add: CONFIG_defs)
  show ?thesis
    unfolding Let_def using b e u s c by (simp only:) blast
qed

text \<open>
  With every draw \<open>0\<close> the gap is \<open>200\<close> and the threshold \<open>40\<close>: frame \<open>41\<close> after a spawn
  at frame \<open>0\<close> spawns, frame \<open>40\<close> does not.
\<close>

theorem generateObstacle_spawn_witness:
  "0 \<le> rand (running_world 41 41 0 (\<lambda>_. 0)) (randPos (running_world 41 41 0 (\<lambda>_. 0)))
   \<and> rand (running_world 41 41 0 (\<lambda>_. 0)) (randPos (running_world 41 41 0 (\<lambda>_. 0))) < 1
   \<and> map o_x (obstacles (generateObstacle (running_world 41 41 0 (\<lambda>_. 0)))) = [800]
   \<and> lastObstacleFrame (generateObstacle (running_world 41 41 0 (\<lambda>_. 0))) = 41
   \<and> obstacles (generateObstacle (running_world 40 40 0 (\<lambda>_. 0))) = []
   \<and> lastObstacleFrame (generateObstacle (running_world 40 40 0 (\<lambda>_. 0))) = 0"
  using generateObstacle_spawn [of "running_world 41 41 0 (\<lambda>_. 0)"]
    generateObstacle_spawn [of "running_world 40 40 0 (\<lambda>_. 0)"]
  by (auto simp add: running_world_def initial_world_def Let_def CONFIG_defs gap_of_draw_0
      to_double_consts)

subsection \<open>Frames between spawns\<close>

lemma createParticles_loop_fields:
  "gameState (createParticles_loop n x y w) = gameState w"
  "lastObstacleFrame (createParticles_loop n x y w) = lastObstacleFrame w"
  "rand (createParticles_loop n x y w) = rand w"
  "obstacles (createParticles_loop n x y w) = obstacles w"
  "animationFrames (createParticles_loop n x y w) = animationFrames w"
  by (induction n arbitrary: w; simp add: Particle_new_def Math_random_def Let_def split: prod.splits)+

lemma flipGravity_fields:
  "gameState (flipGravity w) = gameState w"
  "lastObstacleFrame (flipGravity w) = lastObstacleFrame w"
  "rand (flipGravity w) = rand w"
  "obstacles (flipGravity w) = obstacles w"
  "animationFrames (flipGravity w) = animationFrames w"
  by (simp_all add: flipGravity_def Let_def createParticles_def createParticles_loop_fields)

lemma spawn_threshold:
  fixes r :: rat and d :: int
  assumes "0 \<le> r"
    and "to_double (gap_of_draw r / CONFIG_obstacle_speed) < of_int d"
  shows "41 \<le> d"
proof -
  have "(40::rat) \<le> to_double (gap_of_draw r / CONFIG_obstacle_speed)"
    using assms(1) by (rule threshold_ge)
  with assms(2) have "(of_int 40 :: rat) < of_int d"
    by simp
  then have "40 < d"
    by (simp only: of_int_less_iff)
  then show ?thesis by simp
qed

lemma rand_gameLoop: "rand (gameLoop w) = rand w"
  by (simp add: tick_defs)

lemma rand_startGame: "rand (startGame w) = rand w"
  by (simp add: startGame_def Let_def rand_gameLoop)

lemma rand_handle: "rand (handle e w) = rand w"
  by (cases e) (simp_all add: restartGame_def rand_startGame rand_gameLoop flipGravity_fields)

lemma rand_fold_handle: "rand (fold handle es w) = rand w"
  by (induction es arbitrary: w) (simp_all add: rand_handle)

lemma generateObstacle_since:
  assumes "0 \<le> rand w (randPos w)"
  shows "frame (gameState (generateObstacle w)) = frame (gameState w)
       \<and> (if spawns w
          then 41 \<le> frame (gameState w) - lastObstacleFrame w
               \<and> lastObstacleFrame (generateObstacle w) = frame (gameState w)
               \<and> length (obstacles (generateObstacle w)) = length (obstacles w) + 1
          else generateObstacle w = w\<lparr>randPos := randPos w + 1\<rparr>)"
proof (cases "of_int (frame (gameState w) - lastObstacleFrame w)
      > to_double (gap_of_draw (rand w (randPos w)) / CONFIG_obstacle_speed)")
  case True
  then have "41 \<le> frame (gameState w) - lastObstacleFrame w"
    using assms spawn_threshold by blast
  with True show ?thesis
    by (simp add: spawns_def generateObstacle_def Math_random_def Obstacle_new_def Let_def)
next
  case False
  then show ?thesis
    by (simp add: spawns_def generateObstacle_def Math_random_def Obstacle_new_def Let_def)
qed


lemma gameLoop_since:
  assumes "0 \<le> rand w (randPos w)" "isRunning (gameState w)"
  shows "frame (gameState (gameLoop w)) = frame (gameState w) + 1
       \<and> lastObstacleFrame (gameLoop w)
           = (if tick_spawns w then frame (gameState w) else lastObstacleFrame w)
       \<and> (tick_spawns w \<longrightarrow> 41 \<le> frame (gameState w) - lastObstacleFrame w)"
proof -
  let ?X = "updateParticles (updateObstacles (w\<lparr>player := Player_update (player w)\<rparr>))"
  have X: "frame (gameState ?X) = frame (gameState w)"
    "lastObstacleFrame ?X = lastObstacleFrame w" "rand ?X = rand w" "randPos ?X = randPos w"
    by (simp_all add: updateParticles_def updateObstacles_def)
  have g: "frame (gameState (generateObstacle ?X)) = frame (gameState w)
       \<and> (if spawns ?X
          then 41 \<le> frame (gameState w) - lastObstacleFrame w
               \<and> lastObstacleFrame (generateObstacle ?X) = frame (gameState w)
          else lastObstacleFrame (generateObstacle ?X) = lastObstacleFrame w)"
    using generateObstacle_since [of ?X] assms(1) unfolding X
    by (auto split: if_splits simp add: X)
  have l: "frame (gameState (gameLoop w)) = frame (gameState (generateObstacle ?X)) + 1"
    "lastObstacleFrame (gameLoop w) = lastObstacleFrame (generateObstacle ?X)"
    using assms(2)
    by (simp_all add: gameLoop_def requestAnimationFrame_def checkCollisions_eq gameOver_def
        updateScore_def Let_def)
  have t: "tick_spawns w \<longleftrightarrow> spawns ?X"
    using assms(2) by (simp add: tick_spawns_def)
  show ?thesis
    using g unfolding l t by (simp split: if_splits)
qed

lemma gameLoop_since_le:
  assumes "\<forall>n. 0 \<le> rand w n"
  shows "frame (gameState (gameLoop w)) - lastObstacleFrame (gameLoop w)
           \<le> frame (gameState w) - lastObstacleFrame w + 1"
proof (cases "isRunning (gameState w)")
  case True
  with assms gameLoop_since [of w] show ?thesis
    by (auto split: if_splits)
next
  case False
  then show ?thesis by (simp add: gameLoop_def)
qed

lemma startGame_since_le:
  assumes "\<forall>n. 0 \<le> rand w n"
  shows "frame (gameState (startGame w)) - lastObstacleFrame (startGame w) \<le> 1"
proof -
  let ?w3 = "(w\<lparr>startScreen_hidden := True, gameHint_hidden := False,
      gameState := (gameState w)\<lparr>isRunning := True, score := 0, frame := 0\<rparr>,
      obstacles := [], particles := [], lastObstacleFrame := 0\<rparr>)\<lparr>player := Player_reset (player w)\<rparr>"
  have s: "startGame w = gameLoop ?w3"
    by (simp add: startGame_def Let_def)
  have "\<forall>n. 0 \<le> rand ?w3 n"
    using assms by simp
  from gameLoop_since_le [OF this] show ?thesis
    unfolding s by simp
qed

lemma handle_since_le:
  assumes "\<forall>n. 0 \<le> rand w n" "frame (gameState w) - lastObstacleFrame w \<le> n" "0 \<le> n"
  shows "frame (gameState (handle e w)) - lastObstacleFrame (handle e w)
           \<le> n + (if e = FlipInput then 0 else 1)"
proof (cases e)
  case StartClick
  with startGame_since_le [OF assms(1)] assms(3) show ?thesis by simp
next
  case RestartClick
  have "\<forall>n. 0 \<le> rand (w\<lparr>gameOverScreen_hidden := True\<rparr>) n"
    using assms(1) by simp
  from startGame_since_le [OF this] RestartClick assms(3) show ?thesis
    by (simp add: restartGame_def)
next
  case FlipInput
  with assms(2) show ?thesis by (simp add: flipGravity_fields)
next
  case AnimationFrame
  have "\<forall>n. 0 \<le> rand (w\<lparr>animationFrames := animationFrames w - 1\<rparr>) n"
    using assms(1) by simp
  from gameLoop_since_le [OF this] AnimationFrame assms(2) show ?thesis
    by simp
qed

lemma fold_handle_since_le:
  assumes "\<forall>n. 0 \<le> rand w n" "frame (gameState w) - lastObstacleFrame w \<le> n" "0 \<le> n"
  shows "frame (gameState (fold handle es w)) - lastObstacleFrame (fold handle es w)
           \<le> n + int (ticks_of es)"
  using assms
proof (induction es arbitrary: w n)
  case Nil
  then show ?case by (simp add: ticks_of_def)
next
  case (Cons e es)
  define k :: int where "k = (if e = FlipInput then 0 else 1)"
  define v where "v = handle e w"
  have r: "\<forall>n. 0 \<le> rand v n"
    using Cons.prems(1) by (simp add: v_def rand_handle)
  have d: "frame (gameState v) - lastObstacleFrame v \<le> n + k"
    unfolding k_def v_def using Cons.prems by (rule handle_since_le)
  have "0 \<le> n + k"
    using Cons.prems(3) by (simp add: k_def)
  from Cons.IH [OF r d this]
  have "frame (gameState (fold handle es v)) - lastObstacleFrame (fold handle es v)
          \<le> n + k + int (ticks_of es)" .
  moreover have "int (ticks_of (e # es)) = k + int (ticks_of es)"
    by (simp add: ticks_of_def k_def)
  moreover have "fold handle (e # es) w = fold handle es v"
    by (simp add: v_def)
  ultimately show ?case
    by simp
qed

text \<open>
  C10. Whatever the draws (none is negative), a call of \<open>generateObstacle\<close> adds at most
  one obstacle. It adds one only if the current frame is at least \<open>41\<close> past
  \<open>lastObstacleFrame\<close>, the frame of the previous spawn, and then records the current frame
  there. For whole ticks: after a tick that spawns, no tick spawns until at least \<open>40\<close>
  further ticks have run, whatever inputs arrive in between.
\<close>

theorem spawns_far_apart:
  assumes "\<forall>n. 0 \<le> rand w n"
  shows "length (obstacles (generateObstacle w)) \<le> length (obstacles w) + 1
       \<and> (spawns w \<longrightarrow>
            41 \<le> frame (gameState w) - lastObstacleFrame w
            \<and> lastObstacleFrame (generateObstacle w) = frame (gameState w))
       \<and> (tick_spawns w \<longrightarrow>
            41 \<le> frame (gameState w) - lastObstacleFrame w
            \<and> lastObstacleFrame (gameLoop w) = frame (gameState w)
            \<and> (\<forall>es. ticks_of es < 40 \<longrightarrow> \<not> tick_spawns (fold handle es (gameLoop w))))"
proof -
  have r: "0 \<le> rand w (randPos w)"
    using assms by simp
  have 1: "length (obstacles (generateObstacle w)) \<le> length (obstacles w) + 1"
    using generateObstacle_since [OF r] by (auto split: if_splits)
  have 2: "spawns w \<longrightarrow>
            41 \<le> frame (gameState w) - lastObstacleFrame w
            \<and> lastObstacleFrame (generateObstacle w) = frame (gameState w)"
    using generateObstacle_since [OF r] by (auto split: if_splits)
  have 3: "41 \<le> frame (gameState w) - lastObstacleFrame w
            \<and> lastObstacleFrame (gameLoop w) = frame (gameState w)
            \<and> (\<forall>es. ticks_of es < 40 \<longrightarrow> \<not> tick_spawns (fold handle es (gameLoop w)))"
    if t: "tick_spawns w"
  proof -
    have run: "isRunning (gameState w)"
      using t by (simp add: tick_spawns_def)
    note g = gameLoop_since [OF r run]
    have a: "41 \<le> frame (gameState w) - lastObstacleFrame w"
      and b: "lastObstacleFrame (gameLoop w) = frame (gameState w)"
      and c: "frame (gameState (gameLoop w)) - lastObstacleFrame (gameLoop w) \<le> 1"
      using g t by simp_all
    have "\<not> tick_spawns (fold handle es (gameLoop w))" if k: "ticks_of es < 40" for es
    proof
      let ?v = "fold handle es (gameLoop w)"
      assume s: "tick_spawns ?v"
      have rl: "\<forall>n. 0 \<le> rand (gameLoop w) n"
        using assms by (simp add: rand_gameLoop)
      have rv: "0 \<le> rand ?v (randPos ?v)"
        using assms by (simp add: rand_fold_handle rand_gameLoop)
      have "isRunning (gameState ?v)"
        using s by (simp add: tick_spawns_def)
      from gameLoop_since [OF rv this] s
      have "41 \<le> frame (gameState ?v) - lastObstacleFrame ?v"
        by simp
      moreover have "frame (gameState ?v) - lastObstacleFrame ?v \<le> 1 + int (ticks_of es)"
        using rl c by (rule fold_handle_since_le) simp
      ultimately show False
        using k by simp
    qed
    with a b show ?thesis by blast
  qed
  from 1 2 3 show ?thesis by blast
qed

theorem spawns_far_apart_witness:
  "(\<forall>n. 0 \<le> rand (running_world 41 41 0 (\<lambda>_. 0)) n)
   \<and> spawns (running_world 41 41 0 (\<lambda>_. 0))
   \<and> tick_spawns (running_world 41 41 0 (\<lambda>_. 0))
   \<and> 41 \<le> frame (gameState (running_world 41 41 0 (\<lambda>_. 0)))
            - lastObstacleFrame (running_world 41 41 0 (\<lambda>_. 0))
   \<and> ticks_of [AnimationFrame, FlipInput, AnimationFrame] < 40
   \<and> \<not> tick_spawns (fold handle [AnimationFrame, FlipInput, AnimationFrame]
          (gameLoop (running_world 41 41 0 (\<lambda>_. 0))))"
proof -
  let ?W = "running_world 41 41 0 (\<lambda>_. 0)"
  have r: "\<forall>n. 0 \<le> rand ?W n"
    by (simp add: running_world_def initial_world_def)
  have s: "spawns ?W"
    by (simp add: spawns_def generateObstacle_def Math_random_def Obstacle_new_def Let_def
        running_world_def initial_world_def CONFIG_defs gap_of_draw_0 to_double_consts)
  have t: "tick_spawns ?W"
    by (simp add: tick_spawns_def spawns_def generateObstacle_def Math_random_def
        Obstacle_new_def Let_def updateParticles_def updateObstacles_def
        running_world_def initial_world_def CONFIG_defs gap_of_draw_0 to_double_consts)
  have k: "ticks_of [AnimationFrame, FlipInput, AnimationFrame] < 40"
    by (simp add: ticks_of_def)
  from spawns_far_apart [OF r] s t k r show ?thesis
    by blast
qed

subsection \<open>Scheduling the next tick\<close>

lemma generateObstacle_keeps: "set (obstacles w) \<subseteq> set (obstacles (generateObstacle w))"
  by (auto simp add: generateObstacle_def Math_random_def Obstacle_new_def Let_def)

lemma generateObstacle_player: "player (generateObstacle w) = player w"
  by (simp add: generateObstacle_def Math_random_def Obstacle_new_def Let_def)

lemma generateObstacle_gameState: "gameState (generateObstacle w) = gameState w"
  by (simp add: generateObstacle_def Math_random_def Obstacle_new_def Let_def)

lemma gameLoop_isRunning:
  "isRunning (gameState (gameLoop w)) \<longleftrightarrow>
     isRunning (gameState w)
     \<and> \<not> (\<exists>ob \<in> set (obstacles (generateObstacle
              (updateParticles (updateObstacles (w\<lparr>player := Player_update (player w)\<rparr>))))).
            collidesWith ob (Player_update (player w)))"
  by (simp add: gameLoop_def requestAnimationFrame_def checkCollisions_eq gameOver_def
      updateScore_def Let_def generateObstacle_player generateObstacle_gameState
      updateParticles_def updateObstacles_def)

lemma gameLoop_ends_run:
  assumes "ob \<in> set (obstacles w)" "\<not> isOffScreen (Obstacle_update ob)"
    "collidesWith (Obstacle_update ob) (Player_update (player w))"
  shows "\<not> isRunning (gameState (gameLoop w))"
proof -
  let ?X = "updateParticles (updateObstacles (w\<lparr>player := Player_update (player w)\<rparr>))"
  have "obstacles ?X = filter (\<lambda>ob. \<not> isOffScreen ob) (map Obstacle_update (obstacles w))"
    by (simp add: updateParticles_def updateObstacles_def updateObstacles_loop_eq)
  then have "Obstacle_update ob \<in> set (obstacles ?X)"
    using assms(1,2) by simp
  then have "Obstacle_update ob \<in> set (obstacles (generateObstacle ?X))"
    using generateObstacle_keeps by blast
  then show ?thesis
    using assms(3) unfolding gameLoop_isRunning by blast
qed

lemma animationFrames_gameLoop:
  "animationFrames (gameLoop w)
     = (if isRunning (gameState w) then animationFrames w + 1 else animationFrames w)"
  by (simp add: tick_defs)

lemma crash_world_hits:
  "\<not> isOffScreen (Obstacle_update (hd (obstacles crash_world)))
   \<and> collidesWith (Obstacle_update (hd (obstacles crash_world)))
       (Player_update (player crash_world))"
  by code_simp

text \<open>
  C9, as stated, fails: in \<open>crash_world\<close> the pending callback runs \<open>gameLoop\<close>, the oldest
  obstacle moves onto the player, \<open>checkCollisions\<close> ends the run, and the same tick goes on
  to call \<open>requestAnimationFrame\<close>: the run is over and a further tick is scheduled.
\<close>

theorem collision_tick_schedules_again:
  "isRunning (gameState crash_world)
   \<and> animationFrames crash_world = 1
   \<and> \<not> isRunning (gameState (handle AnimationFrame crash_world))
   \<and> animationFrames (handle AnimationFrame crash_world) = 1"
proof -
  let ?w = "crash_world\<lparr>animationFrames := animationFrames crash_world - 1\<rparr>"
  have a: "isRunning (gameState crash_world)" "animationFrames crash_world = 1"
    by (simp_all add: crash_world_def)
  have h: "handle AnimationFrame crash_world = gameLoop ?w"
    using a by simp
  have m: "hd (obstacles crash_world) \<in> set (obstacles ?w)"
    by (simp add: crash_world_def)
  have "\<not> isRunning (gameState (gameLoop ?w))"
    using m crash_world_hits by (intro gameLoop_ends_run [of "hd (obstacles crash_world)"]) simp_all
  moreover have "animationFrames (gameLoop ?w) = 1"
    using a by (simp add: animationFrames_gameLoop)
  ultimately show ?thesis
    using a unfolding h by simp
qed

text \<open>
  What a restart does: \<open>startGame\<close> sets the run running and calls \<open>gameLoop\<close> itself, so it
  always adds a callback to those pending, and its tick takes frame and score from \<open>0\<close> to
  \<open>1\<close>. For a player with the constructor's \<open>x\<close> and width that tick cannot collide: the
  obstacles were cleared, and one spawned in the tick is at \<open>x = 800\<close>.
\<close>

lemma animationFrames_restartGame:
  "animationFrames (handle RestartClick w) = animationFrames w + 1"
  by (simp add: restartGame_def startGame_def Let_def animationFrames_gameLoop)

lemma generateObstacle_new_at_right:
  "ob \<in> set (obstacles (generateObstacle w)) \<Longrightarrow> ob \<in> set (obstacles w) \<or> o_x ob = canvas_width"
  by (auto simp add: generateObstacle_def Math_random_def Obstacle_new_def Let_def
      split: if_splits)

lemma Player_update_x_width:
  "p_x (Player_update p) = p_x p" "p_width (Player_update p) = p_width p"
  by (simp_all add: Player_update_def Let_def)

lemma running_tick:
  assumes "isRunning (gameState v)"
  shows "frame (gameState (gameLoop v)) = frame (gameState v) + 1"
    "score (gameState (gameLoop v)) = score (gameState v) + 1"
  using assms by (simp_all add: tick_defs CONFIG_game_scoreMultiplier_def)

lemma startGame_tick:
  "frame (gameState (startGame v)) = 1" "score (gameState (startGame v)) = 1"
  by (simp_all add: startGame_def Let_def running_tick)

lemma startGame_running:
  assumes "p_x (player v) = CONFIG_player_x" "p_width (player v) = CONFIG_player_size"
  shows "isRunning (gameState (startGame v))"
proof -
  let ?w3 = "(v\<lparr>startScreen_hidden := True, gameHint_hidden := False,
      gameState := (gameState v)\<lparr>isRunning := True, score := 0, frame := 0\<rparr>,
      obstacles := [], particles := [], lastObstacleFrame := 0\<rparr>)
        \<lparr>player := Player_reset (player v)\<rparr>"
  let ?P = "Player_update (player ?w3)"
  let ?X = "updateParticles (updateObstacles (?w3\<lparr>player := ?P\<rparr>))"
  have s: "startGame v = gameLoop ?w3"
    by (simp add: startGame_def Let_def)
  have r: "isRunning (gameState ?w3)"
    by simp
  have X: "obstacles ?X = []"
    by (simp add: updateParticles_def updateObstacles_def)
  have P: "p_x ?P = 150" "p_width ?P = 30"
    using assms by (simp_all add: Player_update_x_width Player_reset_def CONFIG_defs)
  have "\<not> collidesWith ob ?P" if "ob \<in> set (obstacles (generateObstacle ?X))" for ob
  proof -
    from generateObstacle_new_at_right [OF that] X have "o_x ob = 800"
      by (simp add: CONFIG_defs)
    with P show ?thesis
      by (simp add: collidesWith_def to_double_consts)
  qed
  then have n: "\<not> (\<exists>ob \<in> set (obstacles (generateObstacle ?X)). collidesWith ob ?P)"
    by blast
  show ?thesis
    unfolding s using gameLoop_isRunning [of ?w3] r n by blast
qed

text \<open>
  C9, amended. A tick entered in the running state requests exactly one animation frame,
  also when it is the tick that detects the collision and ends the run; a tick entered when
  the run is not running returns at once, changes nothing and requests nothing. So the
  collision tick leaves one more callback pending. If that callback runs while the run is
  still over (flip inputs in between change nothing), it is a tick that does nothing: the
  number of pending callbacks is back to what it was before the collision tick, and a tick
  from there changes nothing. If a restart arrives first, it requests a callback of its
  own and two more than before the collision tick are pending; for a player with the
  constructor's \<open>x\<close> and width the new run is running, the callback of the collision tick
  then runs as a full tick of the new run (frame and score go to \<open>2\<close>) and requests again,
  and two stay pending.
\<close>

theorem tick_reschedules_iff_entered_running:
  "animationFrames (gameLoop w)
     = (if isRunning (gameState w) then animationFrames w + 1 else animationFrames w)
   \<and> (\<not> isRunning (gameState w) \<longrightarrow> gameLoop w = w)
   \<and> (isRunning (gameState w) \<and> \<not> isRunning (gameState (gameLoop w)) \<longrightarrow>
        animationFrames (handle AnimationFrame (gameLoop w)) = animationFrames w
        \<and> gameLoop (handle AnimationFrame (gameLoop w)) = handle AnimationFrame (gameLoop w)
        \<and> handle FlipInput (gameLoop w) = gameLoop w
        \<and> animationFrames (handle RestartClick (gameLoop w)) = animationFrames w + 2
        \<and> (p_x (player w) = CONFIG_player_x \<and> p_width (player w) = CONFIG_player_size \<longrightarrow>
             isRunning (gameState (handle RestartClick (gameLoop w)))
             \<and> frame (gameState (handle AnimationFrame (handle RestartClick (gameLoop w)))) = 2
             \<and> score (gameState (handle AnimationFrame (handle RestartClick (gameLoop w)))) = 2
             \<and> animationFrames (handle AnimationFrame (handle RestartClick (gameLoop w)))
                 = animationFrames w + 2))"
proof -
  have 1: "animationFrames (gameLoop w)
     = (if isRunning (gameState w) then animationFrames w + 1 else animationFrames w)"
    by (simp add: tick_defs)
  have 2: "gameLoop v = v" if "\<not> isRunning (gameState v)" for v
    using that by (simp add: gameLoop_def)
  have 3: "animationFrames (handle AnimationFrame (gameLoop w)) = animationFrames w
        \<and> gameLoop (handle AnimationFrame (gameLoop w)) = handle AnimationFrame (gameLoop w)"
    if a: "isRunning (gameState w)" and b: "\<not> isRunning (gameState (gameLoop w))"
  proof -
    let ?v = "(gameLoop w)\<lparr>animationFrames := animationFrames (gameLoop w) - 1\<rparr>"
    have n: "\<not> isRunning (gameState ?v)"
      using b by simp
    have h: "handle AnimationFrame (gameLoop w) = ?v"
      using 1 a 2 [OF n] by simp
    show ?thesis
      unfolding h using 1 a 2 [OF n] by simp
  qed
  have 4: "handle FlipInput (gameLoop w) = gameLoop w"
    if "\<not> isRunning (gameState (gameLoop w))"
    using that by simp
  have 5: "animationFrames (handle RestartClick (gameLoop w)) = animationFrames w + 2"
    if "isRunning (gameState w)"
    using that 1 by (simp only: animationFrames_restartGame) simp
  have 6: "isRunning (gameState (handle RestartClick (gameLoop w)))
       \<and> frame (gameState (handle AnimationFrame (handle RestartClick (gameLoop w)))) = 2
       \<and> score (gameState (handle AnimationFrame (handle RestartClick (gameLoop w)))) = 2
       \<and> animationFrames (handle AnimationFrame (handle RestartClick (gameLoop w)))
           = animationFrames w + 2"
    if a: "isRunning (gameState w)"
      and p: "p_x (player w) = CONFIG_player_x" "p_width (player w) = CONFIG_player_size"
  proof -
    define v1 where "v1 = handle RestartClick (gameLoop w)"
    define v2 where "v2 = v1\<lparr>animationFrames := animationFrames v1 - 1\<rparr>"
    have s: "v1 = startGame ((gameLoop w)\<lparr>gameOverScreen_hidden := True\<rparr>)"
      by (simp add: v1_def restartGame_def)
    have "player (gameLoop w) = Player_update (player w)"
      using a by (simp add: player_gameLoop)
    then have r1: "isRunning (gameState v1)"
      unfolding s using p by (intro startGame_running) (simp_all add: Player_update_x_width)
    have f1: "frame (gameState v1) = 1" "score (gameState v1) = 1"
      unfolding s by (rule startGame_tick)+
    have n1: "animationFrames v1 = animationFrames w + 2"
      unfolding v1_def using a by (rule 5)
    then have h: "handle AnimationFrame v1 = gameLoop v2"
      by (simp add: v2_def)
    have r2: "isRunning (gameState v2)"
      using r1 by (simp add: v2_def)
    have "frame (gameState (gameLoop v2)) = 2" "score (gameState (gameLoop v2)) = 2"
      using running_tick [OF r2] f1 by (simp_all add: v2_def)
    moreover have "animationFrames (gameLoop v2) = animationFrames w + 2"
      using r2 n1 by (simp add: animationFrames_gameLoop v2_def)
    ultimately show ?thesis
      using r1 unfolding h [symmetric] v1_def by simp
  qed
  from 1 2 3 4 5 6 show ?thesis by blast
qed

text \<open>
  The collision tick of \<open>crash_world\<close> (its pending callback taken off) followed by the
  callback, or by a restart and the callback; and a tick of the world at load, which is not
  running.
\<close>

theorem tick_reschedules_iff_entered_running_witness:
  "isRunning (gameState (crash_world\<lparr>animationFrames := 0\<rparr>))
   \<and> \<not> isRunning (gameState (gameLoop (crash_world\<lparr>animationFrames := 0\<rparr>)))
   \<and> p_x (player (crash_world\<lparr>animationFrames := 0\<rparr>)) = CONFIG_player_x
   \<and> p_width (player (crash_world\<lparr>animationFrames := 0\<rparr>)) = CONFIG_player_size
   \<and> animationFrames (gameLoop (crash_world\<lparr>animationFrames := 0\<rparr>)) = 1
   \<and> animationFrames (handle AnimationFrame (gameLoop (crash_world\<lparr>animationFrames := 0\<rparr>))) = 0
   \<and> animationFrames (handle RestartClick (gameLoop (crash_world\<lparr>animationFrames := 0\<rparr>))) = 2
   \<and> isRunning (gameState
        (handle RestartClick (gameLoop (crash_world\<lparr>animationFrames := 0\<rparr>))))
   \<and> frame (gameState (handle AnimationFrame
        (handle RestartClick (gameLoop (crash_world\<lparr>animationFrames := 0\<rparr>))))) = 2
   \<and> animationFrames (handle AnimationFrame
        (handle RestartClick (gameLoop (crash_world\<lparr>animationFrames := 0\<rparr>)))) = 2
   \<and> \<not> isRunning (gameState (initial_world Map.empty (\<lambda>_. 0)))
   \<and> gameLoop (initial_world Map.empty (\<lambda>_. 0)) = initial_world Map.empty (\<lambda>_. 0)"
proof -
  let ?w = "crash_world\<lparr>animationFrames := 0\<rparr>"
  have a: "isRunning (gameState ?w)" "animationFrames ?w = 0"
    "p_x (player ?w) = CONFIG_player_x" "p_width (player ?w) = CONFIG_player_size"
    by (simp_all add: crash_world_def CONFIG_defs)
  have "hd (obstacles crash_world) \<in> set (obstacles ?w)"
    by (simp add: crash_world_def)
  then have b: "\<not> isRunning (gameState (gameLoop ?w))"
    using crash_world_hits
    by (intro gameLoop_ends_run [of "hd (obstacles crash_world)"]) simp_all
  have c: "\<not> isRunning (gameState (initial_world Map.empty (\<lambda>_. 0)))"
    by (simp add: initial_world_def)
  from tick_reschedules_iff_entered_running [of ?w]
    tick_reschedules_iff_entered_running [of "initial_world Map.empty (\<lambda>_. 0)"] a b c
  show ?thesis
    by (simp del: handle.simps)
qed

end
